theory Spec2Isabelle
  imports Complex_Main "HOL-Library.Word" "HOL-Library.Sublist"
begin

unbundle bit_operations_syntax

section \<open>Python values and exceptions\<close>

text \<open>
  The two modules are Python. Python integers are unbounded and are modelled as \<open>int\<close>
  (\<open>AND\<close> and \<open>OR\<close> on \<open>int\<close> are the two's-complement operations of Python's
  \<open>&\<close> and \<open>|\<close>); a byte of a \<open>bytes\<close> or \<open>bytearray\<close> object is an \<open>8 word\<close>.
  The exceptions of the interpreter that the code can meet are the constructors of
  \<open>py_exc\<close>; a function that may raise returns \<open>py_exc + 'a\<close>, with \<open>Inl\<close> for
  the raise.
\<close>

datatype py_exc = IndexError | StructError | KeyError | ValueError | TypeError | AttributeError

type_synonym byte = "8 word"

text \<open>
  The values of the loosely typed mappings: what JSON and YAML documents hold, and what
  the parsers put into their result dictionaries. Floats are not modelled.
\<close>

datatype pyval =
    VNone
  | VBool bool
  | VInt int
  | VStr string
  | VList "pyval list"
  | VDict "(string \<times> pyval) list"

type_synonym pydict = "string \<rightharpoonup> pyval"

text \<open>Truth value testing (\<open>if x:\<close>, \<open>not x\<close>, \<open>x or y\<close>).\<close>

fun truthy :: "pyval \<Rightarrow> bool" where
  "truthy VNone = False"
| "truthy (VBool b) = b"
| "truthy (VInt n) = (n \<noteq> 0)"
| "truthy (VStr s) = (s \<noteq> [])"
| "truthy (VList xs) = (xs \<noteq> [])"
| "truthy (VDict kvs) = (kvs \<noteq> [])"

section \<open>Hexadecimal text\<close>

definition upper_digit :: "nat \<Rightarrow> char" where
  "upper_digit d = ''0123456789ABCDEF'' ! (d mod 16)"

definition lower_digit :: "nat \<Rightarrow> char" where
  "lower_digit d = ''0123456789abcdef'' ! (d mod 16)"

text \<open>The digits of a natural number in base 16, most significant first.\<close>

fun hex_digits :: "(nat \<Rightarrow> char) \<Rightarrow> nat \<Rightarrow> string" where
  "hex_digits dg n = (if n < 16 then [dg n] else hex_digits dg (n div 16) @ [dg (n mod 16)])"

declare hex_digits.simps [simp del]

text \<open>
  \<open>_hex(x)\<close> is \<open>'0x{:02X}'.format(x)\<close>: upper-case digits, padded with zeros to a
  width of two; the sign of a negative number counts for the width, so no zero is ever
  added after a minus sign.
\<close>

definition hex :: "int \<Rightarrow> string" where
  "hex x = ''0x'' @
     (if x < 0 then CHR ''-'' # hex_digits upper_digit (nat (- x))
      else if x < 16 then CHR ''0'' # hex_digits upper_digit (nat x)
      else hex_digits upper_digit (nat x))"

text \<open>
  \<open>int(x, 16)\<close> on a string: surrounding ASCII white space is dropped, then come an
  optional sign, an optional \<open>0x\<close> or \<open>0X\<close>, and at least one hexadecimal digit of
  either case. Anything else raises \<open>ValueError\<close>, here \<open>None\<close>. (The underscores that
  Python 3.6 and later accept between digits are not modelled.)
\<close>

definition digit_val :: "char \<Rightarrow> nat option" where
  "digit_val c =
     (let n = of_char c :: nat in
      if 48 \<le> n \<and> n \<le> 57 then Some (n - 48)
      else if 97 \<le> n \<and> n \<le> 102 then Some (n - 87)
      else if 65 \<le> n \<and> n \<le> 70 then Some (n - 55)
      else None)"

fun digits_value :: "nat \<Rightarrow> nat \<Rightarrow> string \<Rightarrow> nat option" where
  "digits_value base acc [] = Some acc"
| "digits_value base acc (c # cs) =
     (case digit_val c of
        None \<Rightarrow> None
      | Some d \<Rightarrow> if d < base then digits_value base (acc * base + d) cs else None)"

definition is_space :: "char \<Rightarrow> bool" where
  "is_space c = (c \<in> set [CHR '' '', CHR 0x09, CHR 0x0A, CHR 0x0B, CHR 0x0C, CHR 0x0D])"

definition strip :: "string \<Rightarrow> string" where
  "strip s = rev (dropWhile is_space (rev (dropWhile is_space s)))"

definition int_of_string :: "nat \<Rightarrow> string \<Rightarrow> int option" where
  "int_of_string base s =
     (let s1 = strip s;
          neg = (s1 \<noteq> [] \<and> hd s1 = CHR ''-'');
          s2 = (if s1 \<noteq> [] \<and> (hd s1 = CHR ''-'' \<or> hd s1 = CHR ''+'') then tl s1 else s1);
          s3 = (if base = 16 \<and> (take 2 s2 = ''0x'' \<or> take 2 s2 = ''0X'') then drop 2 s2 else s2)
      in if s3 = [] then None
         else map_option (\<lambda>n. if neg then - int n else int n) (digits_value base 0 s3))"

text \<open>\<open>_raw_to_int\<close>: \<open>[int(x, 16) for x in raw_data]\<close>, which stops at the first failure.\<close>

fun raw_to_int :: "string list \<Rightarrow> py_exc + int list" where
  "raw_to_int [] = Inr []"
| "raw_to_int (x # xs) =
     (case int_of_string 16 x of
        None \<Rightarrow> Inl ValueError
      | Some n \<Rightarrow> (case raw_to_int xs of Inl e \<Rightarrow> Inl e | Inr ns \<Rightarrow> Inr (n # ns)))"

text \<open>
  \<open>binascii.hexlify\<close>: two lower-case digits for every byte. \<open>_bytehex\<close> cuts that text
  into pieces of two characters and \<open>_hexarray\<close> puts \<open>0x\<close> before each piece.
\<close>

definition hexlify :: "byte list \<Rightarrow> string" where
  "hexlify bs = concat (map (\<lambda>b. [lower_digit (unat b div 16), lower_digit (unat b mod 16)]) bs)"

fun bytehex :: "string \<Rightarrow> string list" where
  "bytehex [] = []"
| "bytehex [c] = [[c]]"
| "bytehex (c # d # cs) = [c, d] # bytehex cs"

definition hexarray :: "byte list \<Rightarrow> string list" where
  "hexarray data = map (\<lambda>x. ''0x'' @ x) (bytehex (hexlify data))"

section \<open>The code tables of the Node Manager\<close>

definition INTEL_NM_DOMAINS :: "(string \<times> int) list" where
  "INTEL_NM_DOMAINS =
     [(''platform'', 0x00), (''cpu'', 0x01), (''memory'', 0x02), (''protection'', 0x03),
      (''io'', 0x04)]"

definition INTEL_NM_TRIGGERS :: "(string \<times> int) list" where
  "INTEL_NM_TRIGGERS =
     [(''none'', 0x00), (''temperature'', 0x01), (''power'', 0x02), (''reset'', 0x03),
      (''boot'', 0x04)]"

definition INTEL_NM_CPU_CORRECTION :: "(string \<times> int) list" where
  "INTEL_NM_CPU_CORRECTION = [(''auto'', 0x00), (''unagressive'', 0x20), (''aggressive'', 0x40)]"

definition INTEL_NM_STORAGE :: "(string \<times> int) list" where
  "INTEL_NM_STORAGE = [(''persistent'', 0x00), (''volatile'', 0x80)]"

definition INTEL_NM_ACTIONS :: "(string \<times> int) list" where
  "INTEL_NM_ACTIONS = [(''alert'', 0x00), (''shutdown'', 0x01)]"

definition INTEL_NM_POWER_DOMAIN :: "(string \<times> int) list" where
  "INTEL_NM_POWER_DOMAIN = [(''primary'', 0x00), (''secondary'', 0x80)]"

text \<open>An ordered dictionary: iteration follows the order of this list.\<close>

definition INTEL_NM_DAYS :: "(string \<times> int) list" where
  "INTEL_NM_DAYS =
     [(''monday'', 0x01), (''tuesday'', 0x02), (''wednesday'', 0x04), (''thursday'', 0x08),
      (''friday'', 0x10), (''saturday'', 0x20), (''sunday'', 0x40)]"



text \<open>
  \<open>d[k]\<close> on a dictionary given as a list of items: the value, or \<open>KeyError\<close>.
  \<open>_reverse_dict\<close> is \<open>{v: k for k, v in d.items()}\<close>, where a later item replaces an
  earlier one with the same value; \<open>map_of\<close> reads the first, so the list is reversed.
\<close>

definition getitem :: "('k \<times> 'v) list \<Rightarrow> 'k \<Rightarrow> py_exc + 'v" where
  "getitem d k = (case map_of d k of None \<Rightarrow> Inl KeyError | Some v \<Rightarrow> Inr v)"

definition reverse_dict :: "('k \<times> 'v) list \<Rightarrow> ('v \<times> 'k) list" where
  "reverse_dict d = rev (map (\<lambda>(k, v). (v, k)) d)"

definition INTEL_NM_DOMAINS_REV :: "(int \<times> string) list" where
  "INTEL_NM_DOMAINS_REV = reverse_dict INTEL_NM_DOMAINS"

definition INTEL_NM_TRIGGERS_REV :: "(int \<times> string) list" where
  "INTEL_NM_TRIGGERS_REV = reverse_dict INTEL_NM_TRIGGERS"

definition INTEL_NM_CPU_CORRECTION_REV :: "(int \<times> string) list" where
  "INTEL_NM_CPU_CORRECTION_REV = reverse_dict INTEL_NM_CPU_CORRECTION"

definition INTEL_NM_STORAGE_REV :: "(int \<times> string) list" where
  "INTEL_NM_STORAGE_REV = reverse_dict INTEL_NM_STORAGE"

definition INTEL_NM_ACTIONS_REV :: "(int \<times> string) list" where
  "INTEL_NM_ACTIONS_REV = reverse_dict INTEL_NM_ACTIONS"

definition INTEL_NM_POWER_DOMAIN_REV :: "(int \<times> string) list" where
  "INTEL_NM_POWER_DOMAIN_REV = reverse_dict INTEL_NM_POWER_DOMAIN"

definition INTEL_NM_NETFN :: string where "INTEL_NM_NETFN = ''0x2E''"
definition INTEL_NM_ID :: "string list" where "INTEL_NM_ID = [''0x57'', ''0x01'', ''0x00'']"
definition INTEL_NM_POLICY_CONTROL :: string where "INTEL_NM_POLICY_CONTROL = ''0xC0''"
definition INTEL_NM_POLICY_SET :: string where "INTEL_NM_POLICY_SET = ''0xC1''"
definition INTEL_NM_POLICY_GET :: string where "INTEL_NM_POLICY_GET = ''0xC2''"
definition INTEL_NM_SUSPEND_SET :: string where "INTEL_NM_SUSPEND_SET = ''0xC5''"
definition INTEL_NM_SUSPEND_GET :: string where "INTEL_NM_SUSPEND_GET = ''0xC6''"
definition INTEL_NM_CAPABILITIES_GET :: string where "INTEL_NM_CAPABILITIES_GET = ''0xC9''"
definition INTEL_NM_VERSION_GET :: string where "INTEL_NM_VERSION_GET = ''0xCA''"

section \<open>Days of the week\<close>

text \<open>
  \<open>_days_compose\<close>: the loop \<open>pattern |= INTEL_NM_DAYS[day]\<close>, from \<open>pattern = 0\<close>; a
  name that is not in the table raises \<open>KeyError\<close>.
\<close>

fun days_compose_loop :: "int \<Rightarrow> string list \<Rightarrow> py_exc + int" where
  "days_compose_loop pattern [] = Inr pattern"
| "days_compose_loop pattern (day # days) =
     (case getitem INTEL_NM_DAYS day of
        Inl e \<Rightarrow> Inl e
      | Inr flag \<Rightarrow> days_compose_loop (pattern OR flag) days)"

definition days_compose :: "string list \<Rightarrow> py_exc + int" where
  "days_compose days = days_compose_loop 0 days"

text \<open>\<open>_days_parse\<close>: \<open>[day for day in INTEL_NM_DAYS if pattern & INTEL_NM_DAYS[day]]\<close>.\<close>

definition days_parse :: "int \<Rightarrow> string list" where
  "days_parse pattern = map fst (filter (\<lambda>(day, flag). pattern AND flag \<noteq> 0) INTEL_NM_DAYS)"

section \<open>Sequencing of operations that may raise\<close>

definition exc_bind :: "'e + 'a \<Rightarrow> ('a \<Rightarrow> 'e + 'b) \<Rightarrow> 'e + 'b" where
  "exc_bind m f = (case m of Inl e \<Rightarrow> Inl e | Inr x \<Rightarrow> f x)"

text \<open>\<open>xs[i]\<close> for an index that is not negative, and the slice \<open>xs[i:j]\<close>, which never raises.\<close>

definition list_index :: "'a list \<Rightarrow> nat \<Rightarrow> py_exc + 'a" where
  "list_index xs i = (if i < length xs then Inr (xs ! i) else Inl IndexError)"

definition list_slice :: "'a list \<Rightarrow> nat \<Rightarrow> nat \<Rightarrow> 'a list" where
  "list_slice xs i j = take (j - i) (drop i xs)"

text \<open>\<open>d[k]\<close> for a key that a mapping may lack: the field is \<open>None\<close> when the key is absent.\<close>

definition getfield :: "'a option \<Rightarrow> py_exc + 'a" where
  "getfield v = (case v of None \<Rightarrow> Inl KeyError | Some x \<Rightarrow> Inr x)"

section \<open>Packed binary data\<close>

text \<open>
  The \<open>struct\<close> formats of the module are little-endian sequences of unsigned fields
  without padding: \<open><HIHH\<close> has the widths 2, 4, 2, 2 and \<open><HHIIHH\<close> the widths
  2, 2, 4, 4, 2, 2. \<open>struct.pack\<close> raises \<open>struct.error\<close> for a value outside the range
  of its field, \<open>struct.unpack\<close> for data whose length is not that of the format.
  \<open>bytearray\<close> of a list of integers raises \<open>ValueError\<close> for an integer outside
  \<open>range(256)\<close>.
\<close>

definition fmt_HIHH :: "nat list" where "fmt_HIHH = [2, 4, 2, 2]"

definition le_bytes :: "nat \<Rightarrow> int \<Rightarrow> byte list" where
  "le_bytes w v = map (\<lambda>i. word_of_int (v div 256 ^ i)) [0..<w]"

definition le_value :: "byte list \<Rightarrow> int" where
  "le_value bs = foldr (\<lambda>b acc. uint b + 256 * acc) bs 0"

fun struct_pack :: "nat list \<Rightarrow> int list \<Rightarrow> py_exc + byte list" where
  "struct_pack [] [] = Inr []"
| "struct_pack (w # ws) (v # vs) =
     (if 0 \<le> v \<and> v < 256 ^ w
      then (case struct_pack ws vs of Inl e \<Rightarrow> Inl e | Inr bs \<Rightarrow> Inr (le_bytes w v @ bs))
      else Inl StructError)"
| "struct_pack _ _ = Inl StructError"

fun unpack_fields :: "nat list \<Rightarrow> byte list \<Rightarrow> int list" where
  "unpack_fields [] data = []"
| "unpack_fields (w # ws) data = le_value (take w data) # unpack_fields ws (drop w data)"

definition struct_unpack :: "nat list \<Rightarrow> byte list \<Rightarrow> py_exc + int list" where
  "struct_unpack fmt data =
     (if length data = sum_list fmt then Inr (unpack_fields fmt data) else Inl StructError)"

definition bytearray :: "int list \<Rightarrow> py_exc + byte list" where
  "bytearray ns =
     (if list_all (\<lambda>n. 0 \<le> n \<and> n < 256) ns then Inr (map word_of_int ns) else Inl ValueError)"

section \<open>Building commands\<close>

text \<open>
  \<open>_append_to_command\<close> takes a single value or a list (or tuple) of values and extends
  the command by it.
\<close>

datatype cmd_data = One string | Many "string list"

fun append_to_command :: "string list \<Rightarrow> cmd_data \<Rightarrow> string list" where
  "append_to_command cmd (One x) = cmd @ [x]"
| "append_to_command cmd (Many xs) = cmd @ xs"

definition create_command_head :: "string \<Rightarrow> string list" where
  "create_command_head command = append_to_command [INTEL_NM_NETFN, command] (Many INTEL_NM_ID)"

text \<open>
  \<open>_add_to_dict\<close>: \<open>data_dict.update(dict(zip(names, values)))\<close>; in \<open>dict(...)\<close> a
  later pair replaces an earlier one with the same name.
\<close>

definition add_to_dict :: "pydict \<Rightarrow> pyval list \<Rightarrow> string list \<Rightarrow> pydict" where
  "add_to_dict data_dict values names = data_dict ++ map_of (rev (zip names values))"

section \<open>Policies\<close>

text \<open>
  The policy that \<open>set_policy\<close> receives is a mapping used as a record. Its keys
  \<open>cpu_power_correction\<close>, \<open>storage\<close> and \<open>trigger_limit\<close> may be absent (the function
  tests for the first two and writes all three), so these fields are optional. The
  \<open>target_limit\<close> is an integer or a mapping with \<open>boot_mode\<close> and \<open>cores_disabled\<close>.
\<close>

datatype target_limit = Limit int | BootMode string int

record policy =
  domain_id :: string
  policy_id :: int
  enable :: bool
  policy_trigger :: string
  cpu_power_correction :: "string option"
  storage :: "string option"
  action :: string
  power_domain :: string
  target_limit :: target_limit
  correction_time :: int
  trigger_limit :: "int option"
  reporting_period :: int

text \<open>
  The first lines of \<open>set_policy\<close> write the defaults into the mapping that was passed
  in: the caller's mapping is changed by the call.
\<close>

definition set_policy_defaults :: "policy \<Rightarrow> policy" where
  "set_policy_defaults policy0 =
     (let policy1 = (if cpu_power_correction policy0 = None
                     then policy0\<lparr>cpu_power_correction := Some ''auto''\<rparr> else policy0);
          policy2 = (if storage policy1 = None
                     then policy1\<lparr>storage := Some ''persistent''\<rparr> else policy1)
      in if policy_trigger policy2 \<in> set [''none'', ''boot'']
         then policy2\<lparr>trigger_limit := Some 0\<rparr> else policy2)"

text \<open>
  The rest of \<open>set_policy\<close>. In the expression
  \<open>INTEL_NM_DOMAINS[policy['domain_id']] | 0x10 if policy['enable'] else 0x00\<close> the
  conditional binds weaker than \<open>|\<close>: it is \<open>(... | 0x10) if policy['enable'] else 0x00\<close>,
  and the table is only read when \<open>enable\<close> holds.
\<close>

definition set_policy_command :: "policy \<Rightarrow> py_exc + string list" where
  "set_policy_command policy =
     (let cmd = create_command_head INTEL_NM_POLICY_SET in
      exc_bind (if enable policy
                then exc_bind (getitem INTEL_NM_DOMAINS (domain_id policy)) (\<lambda>d. Inr (d OR 0x10))
                else Inr 0x00) (\<lambda>byte0.
      let cmd = append_to_command cmd (One (hex byte0));
          cmd = append_to_command cmd (One (hex (policy_id policy))) in
      exc_bind (getitem INTEL_NM_TRIGGERS (policy_trigger policy)) (\<lambda>trig.
      exc_bind (getfield (cpu_power_correction policy)) (\<lambda>corr_name.
      exc_bind (getitem INTEL_NM_CPU_CORRECTION corr_name) (\<lambda>corr.
      exc_bind (getfield (storage policy)) (\<lambda>stor_name.
      exc_bind (getitem INTEL_NM_STORAGE stor_name) (\<lambda>stor.
      let cmd = append_to_command cmd (One (hex (trig OR corr OR stor OR 0x10))) in
      exc_bind (getitem INTEL_NM_ACTIONS (action policy)) (\<lambda>act.
      exc_bind (getitem INTEL_NM_POWER_DOMAIN (power_domain policy)) (\<lambda>pdom.
      let cmd = append_to_command cmd (One (hex (act OR pdom)));
          limit = (case target_limit policy of
                     Limit n \<Rightarrow> n
                   | BootMode boot_mode cores \<Rightarrow>
                       (let mode = (if boot_mode = ''power'' then 0x00 else 0x01);
                            cores_disabled = push_bit 1 cores
                        in mode OR cores_disabled)) in
      exc_bind (getfield (trigger_limit policy)) (\<lambda>trig_limit.
      exc_bind (struct_pack fmt_HIHH
                  [limit, correction_time policy, trig_limit, reporting_period policy])
        (\<lambda>policy_values.
      Inr (append_to_command cmd (Many (hexarray policy_values))))))))))))))"

text \<open>
  \<open>set_policy\<close>: the mapping as the call leaves it, and the command or the exception.
\<close>

definition set_policy :: "policy \<Rightarrow> policy \<times> (py_exc + string list)" where
  "set_policy policy0 = (set_policy_defaults policy0, set_policy_command (set_policy_defaults policy0))"

section \<open>Parsing responses\<close>

text \<open>
  The exceptions that leave the two modules: those of the orchestrator, and whatever
  exception of the interpreter no handler catches.
\<close>

datatype ironic_exc =
    IPMIFailure string
  | MissingParameterValue
  | InvalidParameterValue string
  | NodeCleaningFailure
  | Uncaught py_exc

text \<open>
  The decorator \<open>_handle_parsing_error\<close>: \<open>IndexError\<close> and \<open>struct.error\<close>,
  \<open>KeyError\<close> and \<open>ValueError\<close> become an \<open>IPMIFailure\<close> with one of three messages;
  any other exception passes.
\<close>

definition wrong_length :: string where
  "wrong_length = ''Data from Intel Node Manager has wrong length.''"

definition corrupted :: string where
  "corrupted = ''Data from Intel Node Manager is corrupted.''"

definition cannot_convert :: string where
  "cannot_convert = ''Data from Intel Node Manager cannot be converted.''"

definition handle_parsing_error ::
  "(string list \<Rightarrow> py_exc + 'a) \<Rightarrow> string list \<Rightarrow> ironic_exc + 'a" where
  "handle_parsing_error func raw_data =
     (case func raw_data of
        Inr v \<Rightarrow> Inr v
      | Inl e \<Rightarrow>
          if e = IndexError \<or> e = StructError then Inl (IPMIFailure wrong_length)
          else if e = KeyError then Inl (IPMIFailure corrupted)
          else if e = ValueError then Inl (IPMIFailure cannot_convert)
          else Inl (Uncaught e))"

definition py_bool :: "int \<Rightarrow> pyval" where
  "py_bool n = VBool (n \<noteq> 0)"

text \<open>The body of \<open>parse_policy\<close>, statement by statement.\<close>

definition parse_policy_body :: "string list \<Rightarrow> py_exc + pydict" where
  "parse_policy_body raw_data =
     exc_bind (raw_to_int raw_data) (\<lambda>raw_int.
     exc_bind (list_index raw_int 3) (\<lambda>b3.
     exc_bind (getitem INTEL_NM_DOMAINS_REV (b3 AND 0x0F)) (\<lambda>dom.
     let policy = Map.empty(''domain_id'' \<mapsto> VStr dom);
         policy = policy(''enabled'' \<mapsto> py_bool (b3 AND 0x10));
         policy = policy(''per_domain_enabled'' \<mapsto> py_bool (b3 AND 0x20));
         policy = policy(''global_enabled'' \<mapsto> py_bool (b3 AND 0x40));
         policy = policy(''created_by_nm'' \<mapsto> VBool (\<not> (b3 AND 0x80 \<noteq> 0))) in
     exc_bind (list_index raw_int 4) (\<lambda>b4.
     exc_bind (getitem INTEL_NM_TRIGGERS_REV (b4 AND 0x0F)) (\<lambda>trig.
     let policy = policy(''policy_trigger'' \<mapsto> VStr trig);
         policy = policy(''power_policy'' \<mapsto> py_bool (b4 AND 0x10)) in
     exc_bind (getitem INTEL_NM_CPU_CORRECTION_REV (b4 AND 0x60)) (\<lambda>power_correction.
     let policy = policy(''cpu_power_correction'' \<mapsto> VStr power_correction) in
     exc_bind (getitem INTEL_NM_STORAGE_REV (b4 AND 0x80)) (\<lambda>stor.
     let policy = policy(''storage'' \<mapsto> VStr stor) in
     exc_bind (list_index raw_int 5) (\<lambda>b5.
     exc_bind (getitem INTEL_NM_ACTIONS_REV (b5 AND 0x01)) (\<lambda>act.
     let policy = policy(''action'' \<mapsto> VStr act) in
     exc_bind (getitem INTEL_NM_POWER_DOMAIN_REV (b5 AND 0x80)) (\<lambda>pdom.
     let policy = policy(''power_domain'' \<mapsto> VStr pdom) in
     exc_bind (bytearray (drop 6 raw_int)) (\<lambda>data.
     exc_bind (struct_unpack fmt_HIHH data) (\<lambda>policy_values.
     let policy_names = [''target_limit'', ''correction_time'', ''trigger_limit'',
                         ''reporting_period'']
     in Inr (add_to_dict policy (map VInt policy_values) policy_names)))))))))))))"

definition parse_policy :: "string list \<Rightarrow> ironic_exc + pydict" where
  "parse_policy = handle_parsing_error parse_policy_body"

text \<open>
  \<open>parse_policy_suspend\<close>: the loop over \<open>range(policy_num)\<close>, which is empty for a
  count that is not positive.
\<close>

record period =
  start :: int
  stop :: int
  days :: "string list"









definition dict_get :: "('k \<times> 'v) list \<Rightarrow> 'k \<Rightarrow> 'v \<Rightarrow> 'v" where
  "dict_get d k dflt = (case map_of d k of None \<Rightarrow> dflt | Some v \<Rightarrow> v)"





section \<open>Slave address and channel\<close>

text \<open>
  \<open>str.find\<close>: the lowest index at which the text occurs, \<open>None\<close> for Python's \<open>-1\<close>.
\<close>

fun str_find :: "string \<Rightarrow> string \<Rightarrow> nat option" where
  "str_find sub [] = (if sub = [] then Some 0 else None)"
| "str_find sub (c # cs) =
     (if prefix sub (c # cs) then Some 0 else map_option Suc (str_find sub cs))"

text \<open>
  \<open>parse_slave_and_channel\<close>, applied to the content of the file. Without a match the
  function ends without a \<open>return\<close>: the caller gets Python's \<open>None\<close>.
\<close>

definition parse_slave_and_channel :: "byte list \<Rightarrow> py_exc + (string \<times> string) option" where
  "parse_slave_and_channel file_content =
     (let prefix = ''5701000d01'';
          data_str = hexlify file_content
      in case str_find prefix data_str of
           None \<Rightarrow> Inr None
         | Some oem_id_index \<Rightarrow>
             (let ret = list_slice data_str (oem_id_index + length prefix)
                          (oem_id_index + length prefix + 4)
              in exc_bind (list_index ret 2) (\<lambda>c.
                 Inr (Some (''0x'' @ list_slice ret 0 2, ''0x0'' @ [c])))))"

section \<open>The deploy driver\<close>

text \<open>
  \<open>int(x)\<close> on a value of a record: an integer is itself, a string is read in base 10
  (\<open>ValueError\<close> when it is no number), and \<open>None\<close>, a list or a mapping raise
  \<open>TypeError\<close>.
\<close>

fun py_int :: "pyval \<Rightarrow> py_exc + int" where
  "py_int (VInt n) = Inr n"
| "py_int (VBool b) = Inr (if b then 1 else 0)"
| "py_int (VStr s) = (case int_of_string 10 s of None \<Rightarrow> Inl ValueError | Some n \<Rightarrow> Inr n)"
| "py_int VNone = Inl TypeError"
| "py_int (VList xs) = Inl TypeError"
| "py_int (VDict kvs) = Inl TypeError"

text \<open>\<open>d.get(k, default)\<close> on a mapping; \<open>d.get(k)\<close> has the default \<open>None\<close>.\<close>

definition map_get :: "pydict \<Rightarrow> string \<Rightarrow> pyval \<Rightarrow> pyval" where
  "map_get d k dflt = (case d k of None \<Rightarrow> dflt | Some v \<Rightarrow> v)"

text \<open>
  What the driver takes from the orchestrator and its libraries, none of it in this
  repository:
  \<^item> \<open>check_for_missing_params v\<close> holds when \<open>deploy_utils.check_for_missing_params\<close>
    raises \<open>MissingParameterValue\<close> for the mapping \<open>{'root_gb': v}\<close>;
  \<^item> \<open>default_ephemeral_format\<close> is the option \<open>CONF.pxe.default_ephemeral_format\<close>;
  \<^item> \<open>bool_from_string v\<close> is the result of \<open>strutils.bool_from_string(v, strict=True)\<close>,
    \<open>None\<close> when it raises \<open>ValueError\<close>;
  \<^item> \<open>urlparse_scheme s\<close> is \<open>urlparse.urlparse(s).scheme\<close>;
  \<^item> \<open>tempdir\<close> is the option \<open>CONF.tempdir\<close>.
\<close>

record collaborators =
  check_for_missing_params :: "pyval \<Rightarrow> bool"
  default_ephemeral_format :: pyval
  bool_from_string :: "pyval \<Rightarrow> bool option"
  urlparse_scheme :: "string \<Rightarrow> string"
  tempdir :: string

text \<open>\<open>os.path.join\<close> of two components, and \<open>_get_configdrive_path\<close>.\<close>

definition path_join :: "string \<Rightarrow> string \<Rightarrow> string" where
  "path_join a b =
     (if b \<noteq> [] \<and> hd b = CHR ''/'' then b
      else if a = [] \<or> last a = CHR ''/'' then a @ b
      else a @ ''/'' @ b)"

definition get_configdrive_path :: "collaborators \<Rightarrow> string \<Rightarrow> string" where
  "get_configdrive_path ext basename = path_join (tempdir ext) (basename @ ''.cndrive'')"

text \<open>
  \<open>_calculate_memory_req\<close>, from the size that \<open>images.download_size\<close> returned and the
  option \<open>extra_memory\<close>. In Python 3 the operator \<open>/\<close> is the true quotient and
  \<open>int\<close> cuts its fraction off, towards zero; the quotient is taken exactly here, as a
  float holds it for a size below \<open>2 ^ 53\<close>.
\<close>

definition Mi :: int where
  "Mi = 2 ^ 20"

definition py_trunc :: "rat \<Rightarrow> int" where
  "py_trunc x = (if x < 0 then \<lceil>x\<rceil> else \<lfloor>x\<rfloor>)"

definition calculate_memory_req :: "int \<Rightarrow> int \<Rightarrow> int" where
  "calculate_memory_req image_size extra_memory =
     py_trunc (of_int image_size / of_int Mi) + extra_memory"

text \<open>
  One turn of the loop over \<open>DISK_LAYOUT_PARAMS\<close> in \<open>_parse_partitioning_info\<close>:
  \<open>int(i_info[param])\<close>, where only \<open>ValueError\<close> is caught and becomes an
  \<open>InvalidParameterValue\<close> that names the parameter.
\<close>

definition DISK_LAYOUT_PARAMS :: "string list" where
  "DISK_LAYOUT_PARAMS = [''root_gb'', ''swap_mb'', ''ephemeral_gb'']"

definition coerce_param :: "string \<Rightarrow> pyval \<Rightarrow> ironic_exc + int" where
  "coerce_param param v =
     (case py_int v of
        Inr n \<Rightarrow> Inr n
      | Inl e \<Rightarrow> if e = ValueError then Inl (InvalidParameterValue param) else Inl (Uncaught e))"

definition partition :: "string \<Rightarrow> int \<Rightarrow> string \<Rightarrow> string \<Rightarrow> pyval" where
  "partition name size_mib boot swap =
     VDict [(''name'', VStr name), (''size_mib'', VInt size_mib), (''boot'', VStr boot),
            (''swap'', VStr swap)]"

text \<open>
  \<open>_parse_partitioning_info\<close>, for a node with the given \<open>uuid\<close> and \<open>instance_info\<close>.
  The loop over the three parameters is written out, in its order. The result is the
  mapping \<open>i_info\<close> and the file the function wrote, if it wrote one (its path and its
  content).
\<close>

definition parse_partitioning_info ::
  "collaborators \<Rightarrow> string \<Rightarrow> pydict \<Rightarrow> ironic_exc + (pydict \<times> (string \<times> string) option)" where
  "parse_partitioning_info ext uuid info =
     (let root_v = map_get info ''root_gb'' VNone in
      if check_for_missing_params ext root_v then Inl MissingParameterValue
      else
        let swap_v = map_get info ''swap_mb'' (VInt 0);
            eph_v = map_get info ''ephemeral_gb'' (VInt 0) in
        exc_bind (coerce_param (DISK_LAYOUT_PARAMS ! 0) root_v) (\<lambda>root_gb.
        exc_bind (coerce_param (DISK_LAYOUT_PARAMS ! 1) swap_v) (\<lambda>swap_mb.
        exc_bind (coerce_param (DISK_LAYOUT_PARAMS ! 2) eph_v) (\<lambda>ephemeral_gb.
        let i_info = [''swap_mb'' \<mapsto> VInt swap_mb, ''ephemeral_gb'' \<mapsto> VInt ephemeral_gb];
            partitions = [partition ''root'' (1024 * root_gb) ''yes'' ''no''];
            (i_info, partitions) =
              (if swap_mb \<noteq> 0
               then (i_info(''swap_mb'' := None),
                     partitions @ [partition ''swap'' swap_mb ''no'' ''yes''])
               else (i_info, partitions)) in
        exc_bind
          (if ephemeral_gb \<noteq> 0
           then
             (let partitions = partitions @ [partition ''ephemeral'' (1024 * ephemeral_gb) ''no'' ''no''];
                  i_info = i_info(''ephemeral_gb'' := None);
                  fmt = map_get info ''ephemeral_format'' VNone;
                  i_info = i_info(''ephemeral_format'' \<mapsto>
                             (if \<not> truthy fmt then default_ephemeral_format ext else fmt));
                  preserve_ephemeral = map_get info ''preserve_ephemeral'' (VBool False)
              in case bool_from_string ext preserve_ephemeral of
                   None \<Rightarrow> Inl (InvalidParameterValue ''preserve_ephemeral'')
                 | Some b \<Rightarrow>
                     Inr (i_info(''preserve_ephemeral'' \<mapsto> VStr (if b then ''yes'' else ''no'')),
                          partitions))
           else Inr (i_info, partitions))
          (\<lambda>(i_info, partitions).
        let i_info = i_info(''ironic_partitions'' \<mapsto> VList partitions);
            configdrive = map_get info ''configdrive'' VNone in
        if truthy configdrive
        then (case configdrive of
                VStr s \<Rightarrow>
                  if urlparse_scheme ext s \<in> set [''http'', ''https'']
                  then Inr (i_info(''configdrive'' \<mapsto> configdrive), None)
                  else Inr (i_info(''configdrive'' \<mapsto> VStr ''file''),
                            Some (get_configdrive_path ext uuid, s))
              | _ \<Rightarrow> Inl (Uncaught AttributeError))
        else Inr (i_info, None))))))"

text \<open>
  \<open>_get_clean_steps\<close>. The document that \<open>yaml.safe_load\<close> returned is a value, \<open>None\<close>
  when opening or loading the file raised. Iterating over a value: a list gives its
  elements, a mapping its keys, a string its characters; anything else is not iterable.
\<close>

fun py_iter :: "pyval \<Rightarrow> py_exc + pyval list" where
  "py_iter (VList xs) = Inr xs"
| "py_iter (VDict kvs) = Inr (map (\<lambda>(k, v). VStr k) kvs)"
| "py_iter (VStr s) = Inr (map (\<lambda>c. VStr [c]) s)"
| "py_iter VNone = Inl TypeError"
| "py_iter (VBool b) = Inl TypeError"
| "py_iter (VInt n) = Inl TypeError"

text \<open>
  \<open>override.get(name)\<close>, for the mapping \<open>override\<close> with strings as keys: a list or a
  mapping cannot be hashed, and no other value equals a string.
\<close>

fun override_get :: "(string \<times> pyval) list \<Rightarrow> pyval \<Rightarrow> py_exc + pyval" where
  "override_get override (VStr s) = Inr (dict_get override s VNone)"
| "override_get override (VList xs) = Inl TypeError"
| "override_get override (VDict kvs) = Inl TypeError"
| "override_get override v = Inr VNone"

text \<open>
  The loop over the entries of the document. An entry that is no mapping has no method
  \<open>get\<close>. The priority of the entry is read only when the entry passes the filter on
  the interface and \<open>override\<close> has no priority for its name.
\<close>

fun clean_steps_loop ::
  "string option \<Rightarrow> (string \<times> pyval) list \<Rightarrow> pyval list \<Rightarrow> py_exc + pyval list" where
  "clean_steps_loop interface override [] = Inr []"
| "clean_steps_loop interface override (VDict params # rest) =
     (let name = dict_get params ''name'' VNone in
      exc_bind (getitem params ''interface'') (\<lambda>clean_if.
      if (case interface of None \<Rightarrow> False | Some i \<Rightarrow> VStr i \<noteq> clean_if)
      then clean_steps_loop interface override rest
      else
        exc_bind (override_get override name) (\<lambda>new_priority.
        exc_bind (if new_priority \<noteq> VNone then Inr new_priority
                  else getitem params ''priority'') (\<lambda>priority.
        let step = VDict [(''step'', name), (''priority'', priority),
                          (''abortable'', dict_get params ''abortable'' (VBool False)),
                          (''argsinfo'', dict_get params ''argsinfo'' VNone),
                          (''interface'', clean_if),
                          (''tags'', dict_get params ''tags'' (VList []))] in
        exc_bind (clean_steps_loop interface override rest) (\<lambda>steps.
        Inr (step # steps))))))"
| "clean_steps_loop interface override (params # rest) = Inl AttributeError"

definition get_clean_steps ::
  "pyval option \<Rightarrow> string option \<Rightarrow> (string \<times> pyval) list option \<Rightarrow> ironic_exc + pyval list" where
  "get_clean_steps loaded interface override_priorities =
     (case loaded of
        None \<Rightarrow> Inl NodeCleaningFailure
      | Some internal_steps \<Rightarrow>
          (let override = (case override_priorities of None \<Rightarrow> [] | Some d \<Rightarrow> d) in
           case exc_bind (py_iter internal_steps) (clean_steps_loop interface override) of
             Inl e \<Rightarrow> Inl (Uncaught e)
           | Inr steps \<Rightarrow> Inr steps))"

text \<open>A policy and collaborators to evaluate the functions at.\<close>

definition example_collaborators :: collaborators where
  "example_collaborators =
     \<lparr>check_for_missing_params = (\<lambda>v. \<not> truthy v),
      default_ephemeral_format = VStr ''ext4'',
      bool_from_string = (\<lambda>v. case v of VBool b \<Rightarrow> Some b | _ \<Rightarrow> None),
      urlparse_scheme = (\<lambda>s. []),
      tempdir = ''/tmp''\<rparr>"


definition example_policy :: policy where
  "example_policy =
     \<lparr>domain_id = ''cpu'', policy_id = 5, enable = True, policy_trigger = ''power'',
      cpu_power_correction = None, storage = None, action = ''shutdown'',
      power_domain = ''secondary'', target_limit = Limit 300, correction_time = 70000,
      trigger_limit = Some 1000, reporting_period = 10\<rparr>"

section \<open>Properties of the day bitmask\<close>

lemma day_flag_bits:
  assumes "map_of INTEL_NM_DAYS d = Some f"
  shows "bit f 0 \<longleftrightarrow> d = ''monday''" "bit f 1 \<longleftrightarrow> d = ''tuesday''"
    "bit f 2 \<longleftrightarrow> d = ''wednesday''" "bit f 3 \<longleftrightarrow> d = ''thursday''"
    "bit f 4 \<longleftrightarrow> d = ''friday''" "bit f 5 \<longleftrightarrow> d = ''saturday''"
    "bit f 6 \<longleftrightarrow> d = ''sunday''"
  using assms by (auto simp: INTEL_NM_DAYS_def split: if_splits)

lemma and_flag_bit:
  fixes p :: int
  shows "p AND 1 \<noteq> 0 \<longleftrightarrow> bit p 0" "p AND 2 \<noteq> 0 \<longleftrightarrow> bit p 1" "p AND 4 \<noteq> 0 \<longleftrightarrow> bit p 2"
    "p AND 8 \<noteq> 0 \<longleftrightarrow> bit p 3" "p AND 16 \<noteq> 0 \<longleftrightarrow> bit p 4" "p AND 32 \<noteq> 0 \<longleftrightarrow> bit p 5"
    "p AND 64 \<noteq> 0 \<longleftrightarrow> bit p 6"
  using and_exp_eq_0_iff_not_bit [of p 0] and_exp_eq_0_iff_not_bit [of p 1]
    and_exp_eq_0_iff_not_bit [of p 2] and_exp_eq_0_iff_not_bit [of p 3]
    and_exp_eq_0_iff_not_bit [of p 4] and_exp_eq_0_iff_not_bit [of p 5]
    and_exp_eq_0_iff_not_bit [of p 6]
  by simp_all

lemma days_compose_loop_bits:
  "set ds \<subseteq> set (map fst INTEL_NM_DAYS) \<Longrightarrow>
   \<exists>p. days_compose_loop acc ds = Inr p \<and>
     (\<forall>n. bit p n \<longleftrightarrow> bit acc n \<or> (\<exists>d \<in> set ds. \<exists>f. map_of INTEL_NM_DAYS d = Some f \<and> bit f n))"
proof (induction ds arbitrary: acc)
  case Nil
  then show ?case by simp
next
  case (Cons d ds)
  from Cons.prems have "d \<in> fst ` set INTEL_NM_DAYS" by auto
  then have "map_of INTEL_NM_DAYS d \<noteq> None" by (simp add: map_of_eq_None_iff)
  then obtain f where f: "map_of INTEL_NM_DAYS d = Some f" by blast
  from Cons.prems have "set ds \<subseteq> set (map fst INTEL_NM_DAYS)" by simp
  from Cons.IH [OF this, of "acc OR f"] obtain p where
    p: "days_compose_loop (acc OR f) ds = Inr p"
    "\<forall>n. bit p n \<longleftrightarrow> bit (acc OR f) n \<or> (\<exists>d \<in> set ds. \<exists>f. map_of INTEL_NM_DAYS d = Some f \<and> bit f n)"
    by blast
  show ?case using f p by (auto simp: getitem_def bit_or_iff)
qed

lemma day_in_iff:
  assumes "map_of INTEL_NM_DAYS nm = Some g"
    and "\<And>d f. map_of INTEL_NM_DAYS d = Some f \<Longrightarrow> bit f k \<longleftrightarrow> d = nm"
  shows "(\<exists>d \<in> set ds. \<exists>f. map_of INTEL_NM_DAYS d = Some f \<and> bit f k) \<longleftrightarrow> nm \<in> set ds"
  using assms by blast

lemma days_parse_by_bits:
  "days_parse p =
     (if bit p 0 then [''monday''] else []) @ (if bit p 1 then [''tuesday''] else []) @
     (if bit p 2 then [''wednesday''] else []) @ (if bit p 3 then [''thursday''] else []) @
     (if bit p 4 then [''friday''] else []) @ (if bit p 5 then [''saturday''] else []) @
     (if bit p 6 then [''sunday''] else [])"
  unfolding days_parse_def INTEL_NM_DAYS_def
  by (simp add: and_flag_bit del: bit_0)

text \<open>
  Claim C7. The bitmask that \<open>_days_compose\<close> returns for a list of days of the table
  is the bitwise OR of their flags: a bit is set in it exactly when it is set in the flag
  of one of the days. \<open>_days_parse\<close> of any bitmask lists the days whose flag meets the
  bitmask, in the order of the table; and \<open>_days_parse\<close> of the composed bitmask is the
  table's list of days restricted to the days given, whatever their order and number of
  repetitions was.
\<close>

theorem days_compose_parse_table_order:
  assumes "set ds \<subseteq> set (map fst INTEL_NM_DAYS)"
  shows "\<exists>p. days_compose ds = Inr p
     \<and> (\<forall>n. bit p n \<longleftrightarrow> (\<exists>d \<in> set ds. \<exists>f. map_of INTEL_NM_DAYS d = Some f \<and> bit f n))
     \<and> days_parse p = filter (\<lambda>d. d \<in> set ds) (map fst INTEL_NM_DAYS)
     \<and> (\<forall>q. days_parse q =
           filter (\<lambda>d. \<exists>f. map_of INTEL_NM_DAYS d = Some f \<and> q AND f \<noteq> 0) (map fst INTEL_NM_DAYS))"
proof -
  from days_compose_loop_bits [OF assms, of 0] obtain p where
    p: "days_compose ds = Inr p"
    and bits: "\<And>n. bit p n \<longleftrightarrow> (\<exists>d \<in> set ds. \<exists>f. map_of INTEL_NM_DAYS d = Some f \<and> bit f n)"
    by (auto simp: days_compose_def)
  have b: "bit p 0 \<longleftrightarrow> ''monday'' \<in> set ds" "bit p 1 \<longleftrightarrow> ''tuesday'' \<in> set ds"
    "bit p 2 \<longleftrightarrow> ''wednesday'' \<in> set ds" "bit p 3 \<longleftrightarrow> ''thursday'' \<in> set ds"
    "bit p 4 \<longleftrightarrow> ''friday'' \<in> set ds" "bit p 5 \<longleftrightarrow> ''saturday'' \<in> set ds"
    "bit p 6 \<longleftrightarrow> ''sunday'' \<in> set ds"
    unfolding bits
    by (rule day_in_iff, simp add: INTEL_NM_DAYS_def, erule day_flag_bits)+
  have "days_parse p = filter (\<lambda>d. d \<in> set ds) (map fst INTEL_NM_DAYS)"
    unfolding days_parse_by_bits b by (simp add: INTEL_NM_DAYS_def)
  moreover have "\<forall>q. days_parse q =
      filter (\<lambda>d. \<exists>f. map_of INTEL_NM_DAYS d = Some f \<and> q AND f \<noteq> 0) (map fst INTEL_NM_DAYS)"
    by (simp add: days_parse_def INTEL_NM_DAYS_def)
  ultimately show ?thesis using p bits by blast
qed

theorem days_compose_parse_table_order_witness:
  "set [''friday'', ''monday''] \<subseteq> set (map fst INTEL_NM_DAYS)
   \<and> days_compose [''friday'', ''monday''] = Inr 0x11
   \<and> days_compose [''monday'', ''friday''] = Inr 0x11
   \<and> days_parse 0x11 = [''monday'', ''friday'']"
proof -
  have h: "set [''friday'', ''monday''] \<subseteq> set (map fst INTEL_NM_DAYS)"
    by (simp add: INTEL_NM_DAYS_def)
  have c: "days_compose [''friday'', ''monday''] = Inr 0x11" "days_compose [''monday'', ''friday''] = Inr 0x11"
    by (simp_all add: days_compose_def getitem_def INTEL_NM_DAYS_def)
  from days_compose_parse_table_order [OF h] c
  have "days_parse 0x11 = filter (\<lambda>d. d \<in> set [''friday'', ''monday'']) (map fst INTEL_NM_DAYS)"
    by auto
  then have "days_parse 0x11 = [''monday'', ''friday'']"
    by (simp add: INTEL_NM_DAYS_def)
  with h c show ?thesis by simp
qed


section \<open>Hexadecimal text and packed fields\<close>



lemma nat_less_16_cases:
  "(d::nat) < 16 \<Longrightarrow> d \<in> {0,1,2,3,4,5,6,7,8,9,10,11,12,13,14,15}"
  by (simp add: insert_iff) arith

lemma digit_val_upper: "d < 16 \<Longrightarrow> digit_val (upper_digit d) = Some d"
  by (drule nat_less_16_cases) (auto simp: digit_val_def upper_digit_def)

lemma digit_val_lower: "d < 16 \<Longrightarrow> digit_val (lower_digit d) = Some d"
  by (drule nat_less_16_cases) (auto simp: digit_val_def lower_digit_def)

lemma digit_not_space: "digit_val c = Some d \<Longrightarrow> \<not> is_space c"
  by (auto simp: digit_val_def is_space_def Let_def split: if_splits)

lemma int_of_string_two_digits:
  assumes "digit_val c1 = Some d1" "digit_val c2 = Some d2" "d1 < 16" "d2 < 16"
  shows "int_of_string 16 (''0x'' @ [c1, c2]) = Some (int (d1 * 16 + d2))"
proof -
  have sp: "\<not> is_space c2" "\<not> is_space CHR ''0''"
    using assms digit_not_space by (auto simp: is_space_def)
  then have "strip (''0x'' @ [c1, c2]) = ''0x'' @ [c1, c2]"
    by (simp add: strip_def)
  then show ?thesis using assms
    by (simp add: int_of_string_def Let_def)
qed

lemma hex_byte:
  assumes "0 \<le> b" "b < 256"
  shows "hex b = ''0x'' @ [upper_digit (nat b div 16), upper_digit (nat b mod 16)]"
proof (cases "b < 16")
  case True
  with assms show ?thesis
    by (simp add: hex_def hex_digits.simps [of _ "nat b"] upper_digit_def)
next
  case False
  with assms have "nat b div 16 < 16" by simp
  with False assms show ?thesis
    by (simp add: hex_def hex_digits.simps [of _ "nat b"] hex_digits.simps [of _ "nat b div 16"])
qed

lemma int_of_string_hex:
  assumes "0 \<le> b" "b < 256"
  shows "int_of_string 16 (hex b) = Some b"
proof -
  from assms have "nat b div 16 < 16" by simp
  then have "int_of_string 16 (hex b) = Some (int (nat b div 16 * 16 + nat b mod 16))"
    unfolding hex_byte [OF assms]
    by (intro int_of_string_two_digits digit_val_upper) simp_all
  with assms show ?thesis by simp
qed

lemma hexarray_map:
  "hexarray bs = map (\<lambda>b. ''0x'' @ [lower_digit (unat b div 16), lower_digit (unat b mod 16)]) bs"
  by (induction bs) (simp_all add: hexarray_def hexlify_def)

lemma int_of_string_hexarray_elem:
  "int_of_string 16 (''0x'' @ [lower_digit (unat (b::byte) div 16), lower_digit (unat b mod 16)]) = Some (uint b)"
proof -
  have "unat b < 256" using unsigned_less [of b, where ?'a = nat] by simp
  then have "unat b div 16 < 16" by simp
  then have "int_of_string 16 (''0x'' @ [lower_digit (unat b div 16), lower_digit (unat b mod 16)])
      = Some (int (unat b div 16 * 16 + unat b mod 16))"
    by (intro int_of_string_two_digits digit_val_lower) simp_all
  then show ?thesis by simp
qed

lemma raw_to_int_append:
  "raw_to_int xs = Inr ns \<Longrightarrow> raw_to_int ys = Inr ms \<Longrightarrow> raw_to_int (xs @ ys) = Inr (ns @ ms)"
  by (induction xs arbitrary: ns) (auto split: option.splits sum.splits)

lemma raw_to_int_hexarray: "raw_to_int (hexarray bs) = Inr (map uint bs)"
  unfolding hexarray_map
  by (induction bs) (simp_all add: int_of_string_hexarray_elem del: append.simps)

lemma bytearray_uint: "bytearray (map uint (bs :: byte list)) = Inr bs"
proof -
  have "list_all (\<lambda>n. 0 \<le> n \<and> n < 256) (map uint bs)"
    using uint_lt2p [where 'a = 8] by (induction bs) (simp_all)
  then show ?thesis by (simp add: bytearray_def comp_def)
qed



lemma le_value_Cons: "le_value (b # bs) = uint b + 256 * le_value bs"
  by (simp add: le_value_def)

lemma le_value_map_from:
  "le_value (map (\<lambda>i. word_of_int (v div 256 ^ i) :: byte) [k..<k + w]) = (v div 256 ^ k) mod 256 ^ w"
proof (induction w arbitrary: k)
  case 0
  show ?case by (simp add: le_value_def)
next
  case (Suc w)
  let ?u = "v div 256 ^ k"
  have split: "[k..<k + Suc w] = k # [Suc k..<Suc k + w]"
    by (simp add: upt_rec)
  have "uint (word_of_int ?u :: byte) = ?u mod 256"
    by (simp add: uint_word_of_int)
  moreover have "v div 256 ^ Suc k = ?u div 256"
    using zdiv_zmult2_eq [of 256 v "256 ^ k"] by (simp add: mult.commute)
  ultimately have "le_value (map (\<lambda>i. word_of_int (v div 256 ^ i) :: byte) [k..<k + Suc w])
      = ?u mod 256 + 256 * (?u div 256 mod 256 ^ w)"
    unfolding split using Suc.IH [of "Suc k"] by (simp only: list.map le_value_Cons)
  also have "\<dots> = ?u mod (256 * 256 ^ w)"
    using zmod_zmult2_eq [of "256 ^ w" ?u 256] by simp
  finally show ?case by simp
qed

lemma le_value_le_bytes:
  assumes "0 \<le> v" "v < 256 ^ w"
  shows "le_value (le_bytes w v) = v"
  using le_value_map_from [of v 0 w] assms by (simp add: le_bytes_def)

lemma length_le_bytes: "length (le_bytes w v) = w"
  by (simp add: le_bytes_def)

lemma struct_pack_HIHH:
  assumes "0 \<le> a" "a < 256 ^ 2" "0 \<le> b" "b < 256 ^ 4" "0 \<le> c" "c < 256 ^ 2" "0 \<le> d" "d < 256 ^ 2"
  shows "struct_pack fmt_HIHH [a, b, c, d] = Inr (le_bytes 2 a @ le_bytes 4 b @ le_bytes 2 c @ le_bytes 2 d)"
  using assms unfolding fmt_HIHH_def by (simp only: struct_pack.simps) simp

lemma struct_unpack_HIHH:
  assumes "0 \<le> a" "a < 256 ^ 2" "0 \<le> b" "b < 256 ^ 4" "0 \<le> c" "c < 256 ^ 2" "0 \<le> d" "d < 256 ^ 2"
  shows "struct_unpack fmt_HIHH (le_bytes 2 a @ le_bytes 4 b @ le_bytes 2 c @ le_bytes 2 d) = Inr [a, b, c, d]"
  using assms unfolding fmt_HIHH_def struct_unpack_def
  by (simp add: length_le_bytes le_value_le_bytes del: power_numeral)




lemma exc_bind_InrD: "exc_bind m f = Inr y \<Longrightarrow> \<exists>x. m = Inr x \<and> f x = Inr y"
  by (cases m) (simp_all add: exc_bind_def)

lemma exc_bind_Inr [simp]: "exc_bind (Inr x) f = f x"
  by (simp add: exc_bind_def)

lemma exc_bind_Inl [simp]: "exc_bind (Inl e) f = Inl e"
  by (simp add: exc_bind_def)

lemma raw_to_int_length: "raw_to_int raw = Inr ns \<Longrightarrow> length ns = length raw"
  by (induction raw arbitrary: ns) (auto split: option.splits sum.splits)

lemma bytearray_length: "bytearray ns = Inr bs \<Longrightarrow> length bs = length ns"
  by (auto simp: bytearray_def split: if_splits)

lemma struct_unpack_length: "struct_unpack fmt data = Inr vs \<Longrightarrow> length data = sum_list fmt"
  by (auto simp: struct_unpack_def split: if_splits)

lemma list_index_InrD: "list_index xs i = Inr x \<Longrightarrow> i < length xs"
  by (auto simp: list_index_def split: if_splits)

lemma parse_policy_body_length:
  assumes "parse_policy_body raw = Inr Q"
  shows "length raw = 16"
proof -
  from assms obtain raw_int data vs b5 where
    r: "raw_to_int raw = Inr raw_int" and i: "list_index raw_int 5 = Inr b5"
    and b: "bytearray (drop 6 raw_int) = Inr data" and u: "struct_unpack fmt_HIHH data = Inr vs"
    unfolding parse_policy_body_def Let_def
    by (auto dest!: exc_bind_InrD)
  from struct_unpack_length [OF u] bytearray_length [OF b] list_index_InrD [OF i]
    raw_to_int_length [OF r]
  show ?thesis by (simp add: fmt_HIHH_def)
qed

lemma handle_parsing_error_Inr:
  "handle_parsing_error f raw = Inr v \<longleftrightarrow> f raw = Inr v"
  by (auto simp: handle_parsing_error_def split: sum.splits)

lemma length_hexarray: "length (hexarray bs) = length bs"
  by (simp add: hexarray_map)




lemma known_name:
  "nm \<in> fst ` set tbl \<Longrightarrow> \<exists>v. map_of tbl nm = Some v"
  by (cases "map_of tbl nm") (simp_all add: map_of_eq_None_iff)

lemma domain_byte:
  assumes "map_of INTEL_NM_DOMAINS nm = Some d"
  shows "0 \<le> d OR 0x10" "d OR 0x10 < 256"
    "getitem INTEL_NM_DOMAINS_REV ((d OR 0x10) AND 0x0F) = Inr nm"
    "(d OR 0x10) AND 0x10 \<noteq> 0"
  using assms
  by (auto simp: INTEL_NM_DOMAINS_def INTEL_NM_DOMAINS_REV_def reverse_dict_def getitem_def
      split: if_splits)

lemma trigger_byte:
  assumes "map_of INTEL_NM_TRIGGERS tn = Some t" "map_of INTEL_NM_CPU_CORRECTION cn = Some c"
    "map_of INTEL_NM_STORAGE sn = Some s"
  shows "0 \<le> t OR c OR s OR 0x10" "t OR c OR s OR 0x10 < 256"
    "getitem INTEL_NM_TRIGGERS_REV ((t OR c OR s OR 0x10) AND 0x0F) = Inr tn"
    "getitem INTEL_NM_CPU_CORRECTION_REV ((t OR c OR s OR 0x10) AND 0x60) = Inr cn"
    "getitem INTEL_NM_STORAGE_REV ((t OR c OR s OR 0x10) AND 0x80) = Inr sn"
  using assms
  by (auto simp: INTEL_NM_TRIGGERS_def INTEL_NM_TRIGGERS_REV_def INTEL_NM_CPU_CORRECTION_def
      INTEL_NM_CPU_CORRECTION_REV_def INTEL_NM_STORAGE_def INTEL_NM_STORAGE_REV_def
      reverse_dict_def getitem_def split: if_splits)

lemma action_byte:
  assumes "map_of INTEL_NM_ACTIONS an = Some a" "map_of INTEL_NM_POWER_DOMAIN pn = Some p"
  shows "0 \<le> a OR p" "a OR p < 256"
    "getitem INTEL_NM_ACTIONS_REV ((a OR p) AND 0x01) = Inr an"
    "getitem INTEL_NM_POWER_DOMAIN_REV ((a OR p) AND 0x80) = Inr pn"
  using assms
  by (auto simp: INTEL_NM_ACTIONS_def INTEL_NM_ACTIONS_REV_def INTEL_NM_POWER_DOMAIN_def
      INTEL_NM_POWER_DOMAIN_REV_def reverse_dict_def getitem_def split: if_splits)




lemma raw_to_int_frame:
  assumes "0 \<le> b0" "b0 < 256" "0 \<le> b2" "b2 < 256" "0 \<le> b3" "b3 < 256"
  shows "raw_to_int ([''0x57'', ''0x01'', ''0x00'', hex b0, hex b2, hex b3] @ hexarray bs)
    = Inr ([0x57, 0x01, 0x00, b0, b2, b3] @ map uint bs)"
proof -
  have "''0x57'' = hex 0x57" "''0x01'' = hex 0x01" "''0x00'' = hex 0x00"
    by (simp_all add: hex_byte upper_digit_def)
  then have "raw_to_int [''0x57'', ''0x01'', ''0x00'', hex b0, hex b2, hex b3] = Inr [0x57, 0x01, 0x00, b0, b2, b3]"
    using assms by (simp add: int_of_string_hex)
  then show ?thesis
    by (rule raw_to_int_append) (rule raw_to_int_hexarray)
qed

lemma parse_policy_body_frame:
  assumes raw: "raw_to_int raw = Inr ([i0, i1, i2, b0, b2, b3] @ map uint bs)"
    and dom: "getitem INTEL_NM_DOMAINS_REV (b0 AND 0x0F) = Inr dn"
    and trig: "getitem INTEL_NM_TRIGGERS_REV (b2 AND 0x0F) = Inr tn"
    and corr: "getitem INTEL_NM_CPU_CORRECTION_REV (b2 AND 0x60) = Inr cn"
    and stor: "getitem INTEL_NM_STORAGE_REV (b2 AND 0x80) = Inr sn"
    and act: "getitem INTEL_NM_ACTIONS_REV (b3 AND 0x01) = Inr an"
    and pd: "getitem INTEL_NM_POWER_DOMAIN_REV (b3 AND 0x80) = Inr pn"
    and vals: "struct_unpack fmt_HIHH bs = Inr [v0, v1, v2, v3]"
  shows "parse_policy_body raw = Inr
     [''domain_id'' \<mapsto> VStr dn, ''enabled'' \<mapsto> py_bool (b0 AND 0x10),
      ''per_domain_enabled'' \<mapsto> py_bool (b0 AND 0x20),
      ''global_enabled'' \<mapsto> py_bool (b0 AND 0x40),
      ''created_by_nm'' \<mapsto> VBool (\<not> (b0 AND 0x80 \<noteq> 0)),
      ''policy_trigger'' \<mapsto> VStr tn, ''power_policy'' \<mapsto> py_bool (b2 AND 0x10),
      ''cpu_power_correction'' \<mapsto> VStr cn, ''storage'' \<mapsto> VStr sn,
      ''action'' \<mapsto> VStr an, ''power_domain'' \<mapsto> VStr pn,
      ''target_limit'' \<mapsto> VInt v0, ''correction_time'' \<mapsto> VInt v1,
      ''trigger_limit'' \<mapsto> VInt v2, ''reporting_period'' \<mapsto> VInt v3]"
  unfolding parse_policy_body_def raw
  by (simp add: list_index_def dom trig corr stor act pd bytearray_uint vals add_to_dict_def Let_def
      fun_eq_iff map_add_def)




lemma set_policy_command_value:
  assumes en: "enable P"
    and dom: "map_of INTEL_NM_DOMAINS (domain_id P) = Some d"
    and trig: "map_of INTEL_NM_TRIGGERS (policy_trigger P) = Some t"
    and corr: "cpu_power_correction P = Some cn" "map_of INTEL_NM_CPU_CORRECTION cn = Some c"
    and stor: "storage P = Some sn" "map_of INTEL_NM_STORAGE sn = Some s"
    and act: "map_of INTEL_NM_ACTIONS (action P) = Some a"
    and pd: "map_of INTEL_NM_POWER_DOMAIN (power_domain P) = Some p"
    and lim: "target_limit P = Limit n"
    and tlim: "trigger_limit P = Some tlim"
    and pack: "struct_pack fmt_HIHH [n, correction_time P, tlim, reporting_period P] = Inr bs"
  shows "set_policy_command P = Inr ([''0x2E'', ''0xC1'', ''0x57'', ''0x01'', ''0x00'',
      hex (d OR 0x10), hex (policy_id P), hex (t OR c OR s OR 0x10), hex (a OR p)] @ hexarray bs)"
  unfolding set_policy_command_def
  by (simp add: assms getitem_def getfield_def create_command_head_def INTEL_NM_NETFN_def
      INTEL_NM_ID_def INTEL_NM_POLICY_SET_def Let_def)

section \<open>Properties of \<open>set_policy\<close> and \<open>parse_policy\<close>\<close>

text \<open>
  Claim C1 at a disabled policy of the domain \<open>cpu\<close>: the first byte after the header
  is \<open>0x00\<close>, and not the domain code \<open>0x01\<close>.
\<close>

theorem set_policy_disabled_domain_byte:
  "snd (set_policy (example_policy\<lparr>enable := False\<rparr>)) =
     Inr [''0x2E'', ''0xC1'', ''0x57'', ''0x01'', ''0x00'', ''0x00'', ''0x05'', ''0x12'', ''0x81'',
          ''0x2c'', ''0x01'', ''0x70'', ''0x11'', ''0x01'', ''0x00'', ''0xe8'', ''0x03'', ''0x0a'',
          ''0x00'']
   \<and> map_sum id hex (getitem INTEL_NM_DOMAINS (domain_id (example_policy\<lparr>enable := False\<rparr>)))
       = Inr ''0x01''"
  by code_simp



text \<open>
  Claim C2, as amended. Let \<open>P\<close> be an enabled policy with names of the tables, a plain
  integer \<open>target_limit\<close> and values that fit their packed fields. Then \<open>set_policy\<close>
  returns a command of 19 elements, and \<open>parse_policy\<close> accepts no command of that
  length: applied to the command itself it fails. Applied to the same bytes in the layout
  of a response (the three bytes of the manufacturer id, then the domain byte, then the
  bytes from the trigger byte on; that is the command without its first two elements and
  without the policy id) it returns a mapping with \<open>P\<close>'s \<open>domain_id\<close>,
  \<open>policy_trigger\<close>, \<open>action\<close>, \<open>power_domain\<close>, \<open>target_limit\<close>,
  \<open>correction_time\<close> and \<open>reporting_period\<close>, and with the \<open>trigger_limit\<close> that the
  call left in \<open>P\<close>: \<open>P\<close>'s own unless the trigger is \<open>none\<close> or \<open>boot\<close>, and 0 then.
  The mapping has no \<open>policy_id\<close>.
\<close>

theorem policy_round_trip_response_frame:
  assumes en: "enable P"
    and dom: "domain_id P \<in> fst ` set INTEL_NM_DOMAINS"
    and trig: "policy_trigger P \<in> fst ` set INTEL_NM_TRIGGERS"
    and corr: "set_option (cpu_power_correction P) \<subseteq> fst ` set INTEL_NM_CPU_CORRECTION"
    and stor: "set_option (storage P) \<subseteq> fst ` set INTEL_NM_STORAGE"
    and act: "action P \<in> fst ` set INTEL_NM_ACTIONS"
    and pd: "power_domain P \<in> fst ` set INTEL_NM_POWER_DOMAIN"
    and lim: "target_limit P = Limit n" "0 \<le> n" "n < 2 ^ 16"
    and ct: "0 \<le> correction_time P" "correction_time P < 2 ^ 32"
    and tl: "policy_trigger P \<in> set [''none'', ''boot'']
             \<or> (\<exists>t. trigger_limit P = Some t \<and> 0 \<le> t \<and> t < 2 ^ 16)"
    and rp: "0 \<le> reporting_period P" "reporting_period P < 2 ^ 16"
  shows "\<exists>cmd Q. snd (set_policy P) = Inr cmd
     \<and> length cmd = 19
     \<and> (\<forall>R. parse_policy cmd \<noteq> Inr R)
     \<and> parse_policy (take 4 (drop 2 cmd) @ drop 7 cmd) = Inr Q
     \<and> Q ''domain_id'' = Some (VStr (domain_id P))
     \<and> Q ''policy_id'' = None
     \<and> Q ''policy_trigger'' = Some (VStr (policy_trigger P))
     \<and> Q ''action'' = Some (VStr (action P))
     \<and> Q ''power_domain'' = Some (VStr (power_domain P))
     \<and> Q ''target_limit'' = Some (VInt n)
     \<and> Q ''correction_time'' = Some (VInt (correction_time P))
     \<and> Q ''trigger_limit'' = map_option VInt (trigger_limit (fst (set_policy P)))
     \<and> (policy_trigger P \<notin> set [''none'', ''boot''] \<longrightarrow>
          Q ''trigger_limit'' = map_option VInt (trigger_limit P))
     \<and> Q ''reporting_period'' = Some (VInt (reporting_period P))"
proof -
  define P' where "P' = set_policy_defaults P"
  define cn where "cn = (case cpu_power_correction P of None \<Rightarrow> ''auto'' | Some x \<Rightarrow> x)"
  define sn where "sn = (case storage P of None \<Rightarrow> ''persistent'' | Some x \<Rightarrow> x)"
  define tlv where "tlv = (if policy_trigger P \<in> set [''none'', ''boot''] then 0
                           else (case trigger_limit P of None \<Rightarrow> 0 | Some x \<Rightarrow> x))"
  have same: "enable P' = enable P" "domain_id P' = domain_id P" "policy_id P' = policy_id P"
    "policy_trigger P' = policy_trigger P" "action P' = action P"
    "power_domain P' = power_domain P" "target_limit P' = target_limit P"
    "correction_time P' = correction_time P" "reporting_period P' = reporting_period P"
    by (simp_all add: P'_def set_policy_defaults_def Let_def)
  have new: "cpu_power_correction P' = Some cn" "storage P' = Some sn"
    by (simp_all add: P'_def cn_def sn_def set_policy_defaults_def Let_def split: option.splits)
  have tl': "trigger_limit P' = Some tlv"
    using tl by (auto simp: P'_def tlv_def set_policy_defaults_def Let_def)
  have tlv: "0 \<le> tlv" "tlv < 2 ^ 16"
    using tl by (auto simp: tlv_def)
  have auto_known: "''auto'' \<in> fst ` set INTEL_NM_CPU_CORRECTION"
    by (simp add: INTEL_NM_CPU_CORRECTION_def)
  have persistent_known: "''persistent'' \<in> fst ` set INTEL_NM_STORAGE"
    by (simp add: INTEL_NM_STORAGE_def)
  have "cn \<in> fst ` set INTEL_NM_CPU_CORRECTION"
  proof (cases "cpu_power_correction P")
    case None
    then show ?thesis using auto_known by (simp add: cn_def)
  next
    case (Some x)
    then show ?thesis using corr by (simp add: cn_def)
  qed
  from known_name [OF this] obtain c where c: "map_of INTEL_NM_CPU_CORRECTION cn = Some c" ..
  have "sn \<in> fst ` set INTEL_NM_STORAGE"
  proof (cases "storage P")
    case None
    then show ?thesis using persistent_known by (simp add: sn_def)
  next
    case (Some x)
    then show ?thesis using stor by (simp add: sn_def)
  qed
  from known_name [OF this] obtain s where s: "map_of INTEL_NM_STORAGE sn = Some s" ..
  from known_name [OF dom] obtain d where d: "map_of INTEL_NM_DOMAINS (domain_id P) = Some d" ..
  from known_name [OF trig] obtain t where t: "map_of INTEL_NM_TRIGGERS (policy_trigger P) = Some t" ..
  from known_name [OF act] obtain a where a: "map_of INTEL_NM_ACTIONS (action P) = Some a" ..
  from known_name [OF pd] obtain p where p: "map_of INTEL_NM_POWER_DOMAIN (power_domain P) = Some p" ..
  define bs where "bs = le_bytes 2 n @ le_bytes 4 (correction_time P) @ le_bytes 2 tlv
      @ le_bytes 2 (reporting_period P)"
  have rng: "n < 256 ^ 2" "correction_time P < 256 ^ 4" "tlv < 256 ^ 2" "reporting_period P < 256 ^ 2"
    using lim ct tlv rp by simp_all
  have pack: "struct_pack fmt_HIHH [n, correction_time P, tlv, reporting_period P] = Inr bs"
    unfolding bs_def using lim(2) ct(1) tlv(1) rp(1) rng by (intro struct_pack_HIHH)
  have unpack: "struct_unpack fmt_HIHH bs = Inr [n, correction_time P, tlv, reporting_period P]"
    unfolding bs_def using lim(2) ct(1) tlv(1) rp(1) rng by (intro struct_unpack_HIHH)
  define b0 where "b0 = d OR 0x10"
  define b2 where "b2 = t OR c OR s OR 0x10"
  define b3 where "b3 = a OR p"
  define cmd where "cmd = [''0x2E'', ''0xC1'', ''0x57'', ''0x01'', ''0x00'',
      hex b0, hex (policy_id P), hex b2, hex b3] @ hexarray bs"
  have cmd: "snd (set_policy P) = Inr cmd"
    using set_policy_command_value [of P' d t cn c sn s a p n tlv bs]
    by (simp add: set_policy_def P'_def [symmetric] same new tl' en d t c s a p lim pack cmd_def
        b0_def b2_def b3_def)
  have "length bs = 10"
    by (simp add: bs_def length_le_bytes)
  then have len: "length cmd = 19"
    by (simp add: cmd_def length_hexarray)
  have no: "\<forall>R. parse_policy cmd \<noteq> Inr R"
  proof (intro allI notI)
    fix R assume "parse_policy cmd = Inr R"
    then have "parse_policy_body cmd = Inr R"
      by (simp add: parse_policy_def handle_parsing_error_Inr)
    from parse_policy_body_length [OF this] len show False by simp
  qed
  have frame: "take 4 (drop 2 cmd) @ drop 7 cmd
      = [''0x57'', ''0x01'', ''0x00'', hex b0, hex b2, hex b3] @ hexarray bs"
    by (simp add: cmd_def)
  have b0: "0 \<le> b0" "b0 < 256" "getitem INTEL_NM_DOMAINS_REV (b0 AND 0x0F) = Inr (domain_id P)"
    unfolding b0_def using domain_byte [OF d] by simp_all
  have b2: "0 \<le> b2" "b2 < 256"
    "getitem INTEL_NM_TRIGGERS_REV (b2 AND 0x0F) = Inr (policy_trigger P)"
    "getitem INTEL_NM_CPU_CORRECTION_REV (b2 AND 0x60) = Inr cn"
    "getitem INTEL_NM_STORAGE_REV (b2 AND 0x80) = Inr sn"
    unfolding b2_def using trigger_byte [OF t c s] by simp_all
  have b3: "0 \<le> b3" "b3 < 256"
    "getitem INTEL_NM_ACTIONS_REV (b3 AND 0x01) = Inr (action P)"
    "getitem INTEL_NM_POWER_DOMAIN_REV (b3 AND 0x80) = Inr (power_domain P)"
    unfolding b3_def using action_byte [OF a p] by simp_all
  note body = parse_policy_body_frame [OF raw_to_int_frame [OF b0(1,2) b2(1,2) b3(1,2)]
      b0(3) b2(3,4,5) b3(3,4) unpack]
  obtain Q where Q: "parse_policy (take 4 (drop 2 cmd) @ drop 7 cmd) = Inr Q"
    and Qdef: "Q = [''domain_id'' \<mapsto> VStr (domain_id P), ''enabled'' \<mapsto> py_bool (b0 AND 0x10),
      ''per_domain_enabled'' \<mapsto> py_bool (b0 AND 0x20),
      ''global_enabled'' \<mapsto> py_bool (b0 AND 0x40),
      ''created_by_nm'' \<mapsto> VBool (\<not> (b0 AND 0x80 \<noteq> 0)),
      ''policy_trigger'' \<mapsto> VStr (policy_trigger P), ''power_policy'' \<mapsto> py_bool (b2 AND 0x10),
      ''cpu_power_correction'' \<mapsto> VStr cn, ''storage'' \<mapsto> VStr sn,
      ''action'' \<mapsto> VStr (action P), ''power_domain'' \<mapsto> VStr (power_domain P),
      ''target_limit'' \<mapsto> VInt n, ''correction_time'' \<mapsto> VInt (correction_time P),
      ''trigger_limit'' \<mapsto> VInt tlv, ''reporting_period'' \<mapsto> VInt (reporting_period P)]"
    unfolding frame parse_policy_def handle_parsing_error_def body by simp
  have tl_after: "trigger_limit (fst (set_policy P)) = Some tlv"
    using tl' by (simp add: set_policy_def P'_def)
  have tl_before: "policy_trigger P \<notin> set [''none'', ''boot''] \<longrightarrow> trigger_limit P = Some tlv"
    using tl by (auto simp: tlv_def)
  have fields: "Q ''domain_id'' = Some (VStr (domain_id P))" "Q ''policy_id'' = None"
    "Q ''policy_trigger'' = Some (VStr (policy_trigger P))"
    "Q ''action'' = Some (VStr (action P))"
    "Q ''power_domain'' = Some (VStr (power_domain P))"
    "Q ''target_limit'' = Some (VInt n)"
    "Q ''correction_time'' = Some (VInt (correction_time P))"
    "Q ''trigger_limit'' = Some (VInt tlv)"
    "Q ''reporting_period'' = Some (VInt (reporting_period P))"
    unfolding Qdef by simp_all
  show ?thesis
    using cmd len no Q fields tl_after tl_before by (intro exI [of _ cmd] exI [of _ Q]) simp
qed




text \<open>The round trip at the example policy.\<close>

theorem policy_round_trip_response_frame_witness:
  "enable example_policy
   \<and> domain_id example_policy \<in> fst ` set INTEL_NM_DOMAINS
   \<and> target_limit example_policy = Limit 300
   \<and> (\<exists>cmd Q. snd (set_policy example_policy) = Inr cmd
        \<and> (\<forall>R. parse_policy cmd \<noteq> Inr R)
        \<and> parse_policy (take 4 (drop 2 cmd) @ drop 7 cmd) = Inr Q
        \<and> Q ''domain_id'' = Some (VStr ''cpu'')
        \<and> Q ''policy_id'' = None
        \<and> Q ''target_limit'' = Some (VInt 300)
        \<and> Q ''correction_time'' = Some (VInt 70000)
        \<and> Q ''trigger_limit'' = Some (VInt 1000))"
proof -
  have v: "domain_id example_policy = ''cpu''" "policy_trigger example_policy = ''power''"
    "action example_policy = ''shutdown''" "power_domain example_policy = ''secondary''"
    "correction_time example_policy = 70000" "trigger_limit example_policy = Some 1000"
    "reporting_period example_policy = 10" "cpu_power_correction example_policy = None"
    "storage example_policy = None" "enable example_policy"
    "target_limit example_policy = Limit 300"
    by (simp_all add: example_policy_def)
  have h1: "enable example_policy" by (simp add: v)
  have h2: "domain_id example_policy \<in> fst ` set INTEL_NM_DOMAINS"
    by (simp add: v INTEL_NM_DOMAINS_def)
  have h3: "policy_trigger example_policy \<in> fst ` set INTEL_NM_TRIGGERS"
    by (simp add: v INTEL_NM_TRIGGERS_def)
  have h4: "set_option (cpu_power_correction example_policy) \<subseteq> fst ` set INTEL_NM_CPU_CORRECTION"
    by (simp add: v)
  have h5: "set_option (storage example_policy) \<subseteq> fst ` set INTEL_NM_STORAGE"
    by (simp add: v)
  have h6: "action example_policy \<in> fst ` set INTEL_NM_ACTIONS"
    by (simp add: v INTEL_NM_ACTIONS_def)
  have h7: "power_domain example_policy \<in> fst ` set INTEL_NM_POWER_DOMAIN"
    by (simp add: v INTEL_NM_POWER_DOMAIN_def)
  have h8: "target_limit example_policy = Limit 300" "(0::int) \<le> 300" "(300::int) < 2 ^ 16"
    by (simp_all add: v)
  have h9: "0 \<le> correction_time example_policy" "correction_time example_policy < 2 ^ 32"
    by (simp_all add: v)
  have h10: "policy_trigger example_policy \<in> set [''none'', ''boot'']
       \<or> (\<exists>t. trigger_limit example_policy = Some t \<and> 0 \<le> t \<and> t < 2 ^ 16)"
    by (simp add: v)
  have h11: "0 \<le> reporting_period example_policy" "reporting_period example_policy < 2 ^ 16"
    by (simp_all add: v)
  from policy_round_trip_response_frame [OF h1 h2 h3 h4 h5 h6 h7 h8 h9 h10 h11]
  obtain cmd Q where r: "snd (set_policy example_policy) = Inr cmd"
    "\<forall>R. parse_policy cmd \<noteq> Inr R"
    "parse_policy (take 4 (drop 2 cmd) @ drop 7 cmd) = Inr Q"
    "Q ''domain_id'' = Some (VStr (domain_id example_policy))" "Q ''policy_id'' = None"
    "Q ''target_limit'' = Some (VInt 300)"
    "Q ''correction_time'' = Some (VInt (correction_time example_policy))"
    "policy_trigger example_policy \<notin> set [''none'', ''boot''] \<longrightarrow>
          Q ''trigger_limit'' = map_option VInt (trigger_limit example_policy)"
    by blast
  have "Q ''trigger_limit'' = Some (VInt 1000)"
    using r(8) by (simp add: v)
  with r h1 h2 h8(1) show ?thesis
    unfolding v by blast
qed

text \<open>
  \<open>parse_policy\<close> applied to what \<open>set_policy\<close> returns for the example policy: the
  parser reports a wrong length.
\<close>

theorem policy_round_trip_counterexample:
  "snd (set_policy example_policy) =
     Inr [''0x2E'', ''0xC1'', ''0x57'', ''0x01'', ''0x00'', ''0x11'', ''0x05'', ''0x12'', ''0x81'',
          ''0x2c'', ''0x01'', ''0x70'', ''0x11'', ''0x01'', ''0x00'', ''0xe8'', ''0x03'', ''0x0a'',
          ''0x00'']
   \<and> parse_policy
        [''0x2E'', ''0xC1'', ''0x57'', ''0x01'', ''0x00'', ''0x11'', ''0x05'', ''0x12'', ''0x81'',
         ''0x2c'', ''0x01'', ''0x70'', ''0x11'', ''0x01'', ''0x00'', ''0xe8'', ''0x03'', ''0x0a'',
         ''0x00'']
       = Inl (IPMIFailure ''Data from Intel Node Manager has wrong length.'')"
proof -
  let ?cmd = "[''0x2E'', ''0xC1'', ''0x57'', ''0x01'', ''0x00'', ''0x11'', ''0x05'', ''0x12'', ''0x81'',
         ''0x2c'', ''0x01'', ''0x70'', ''0x11'', ''0x01'', ''0x00'', ''0xe8'', ''0x03'', ''0x0a'',
         ''0x00'']"
  have "snd (set_policy example_policy) = Inr ?cmd"
    by code_simp
  moreover have "map_sum id (\<lambda>_. ()) (parse_policy ?cmd)
      = Inl (IPMIFailure ''Data from Intel Node Manager has wrong length.'')"
    by code_simp
  then have "parse_policy ?cmd = Inl (IPMIFailure ''Data from Intel Node Manager has wrong length.'')"
    by (cases "parse_policy ?cmd") simp_all
  ultimately show ?thesis by simp
qed

lemma set_policy_defaults_same:
  "enable (set_policy_defaults P) = enable P" "domain_id (set_policy_defaults P) = domain_id P"
  "policy_id (set_policy_defaults P) = policy_id P"
  "policy_trigger (set_policy_defaults P) = policy_trigger P"
  "action (set_policy_defaults P) = action P"
  "power_domain (set_policy_defaults P) = power_domain P"
  "target_limit (set_policy_defaults P) = target_limit P"
  "correction_time (set_policy_defaults P) = correction_time P"
  "reporting_period (set_policy_defaults P) = reporting_period P"
  "policy.more (set_policy_defaults P) = policy.more P"
  by (simp_all add: set_policy_defaults_def Let_def)

lemma set_policy_defaults_new:
  "cpu_power_correction (set_policy_defaults P)
     = Some (case cpu_power_correction P of None \<Rightarrow> ''auto'' | Some c \<Rightarrow> c)"
  "storage (set_policy_defaults P)
     = Some (case storage P of None \<Rightarrow> ''persistent'' | Some s \<Rightarrow> s)"
  "trigger_limit (set_policy_defaults P)
     = (if policy_trigger P \<in> set [''none'', ''boot''] then Some 0 else trigger_limit P)"
  by (simp_all add: set_policy_defaults_def Let_def split: option.splits)

lemma set_policy_defaults_idem:
  "set_policy_defaults (set_policy_defaults P) = set_policy_defaults P"
  by (rule policy.equality) (simp_all add: set_policy_defaults_same set_policy_defaults_new)

lemma set_policy_defaults_fields:
  "set_policy_defaults P = P
     \<lparr>cpu_power_correction := Some (case cpu_power_correction P of None \<Rightarrow> ''auto'' | Some c \<Rightarrow> c),
      storage := Some (case storage P of None \<Rightarrow> ''persistent'' | Some s \<Rightarrow> s),
      trigger_limit := (if policy_trigger P \<in> set [''none'', ''boot''] then Some 0
                        else trigger_limit P)\<rparr>"
  by (rule policy.equality) (simp_all add: set_policy_defaults_same set_policy_defaults_new)

lemma set_policy_defaults_fixed:
  "set_policy_defaults P = P \<longleftrightarrow>
        cpu_power_correction P \<noteq> None \<and> storage P \<noteq> None
        \<and> (policy_trigger P \<in> set [''none'', ''boot''] \<longrightarrow> trigger_limit P = Some 0)"
proof
  assume "set_policy_defaults P = P"
  then have "cpu_power_correction (set_policy_defaults P) = cpu_power_correction P"
    "storage (set_policy_defaults P) = storage P"
    "trigger_limit (set_policy_defaults P) = trigger_limit P"
    by simp_all
  then show "cpu_power_correction P \<noteq> None \<and> storage P \<noteq> None
        \<and> (policy_trigger P \<in> set [''none'', ''boot''] \<longrightarrow> trigger_limit P = Some 0)"
    unfolding set_policy_defaults_new
    by (cases "cpu_power_correction P"; cases "storage P"; simp split: if_splits)
next
  assume "cpu_power_correction P \<noteq> None \<and> storage P \<noteq> None
        \<and> (policy_trigger P \<in> set [''none'', ''boot''] \<longrightarrow> trigger_limit P = Some 0)"
  then show "set_policy_defaults P = P"
    by (intro policy.equality) (auto simp: set_policy_defaults_same set_policy_defaults_new)
qed


text \<open>
  Claim C4, as amended. \<open>set_policy\<close> changes the mapping it is given: after the call
  \<open>cpu_power_correction\<close> and \<open>storage\<close> are present, with the defaults \<open>auto\<close> and
  \<open>persistent\<close> where they were absent, and \<open>trigger_limit\<close> is 0 when the trigger is
  \<open>none\<close> or \<open>boot\<close>; every other key is as before. The mapping is unchanged exactly
  when it had both keys already and, for these two triggers, a \<open>trigger_limit\<close> of 0. A
  second call on the mapping as the first call left it changes nothing more and returns
  the same result.
\<close>

theorem set_policy_writes_defaults:
  "fst (set_policy P) = P
     \<lparr>cpu_power_correction := Some (case cpu_power_correction P of None \<Rightarrow> ''auto'' | Some c \<Rightarrow> c),
      storage := Some (case storage P of None \<Rightarrow> ''persistent'' | Some s \<Rightarrow> s),
      trigger_limit := (if policy_trigger P \<in> set [''none'', ''boot''] then Some 0
                        else trigger_limit P)\<rparr>
   \<and> (fst (set_policy P) = P \<longleftrightarrow>
        cpu_power_correction P \<noteq> None \<and> storage P \<noteq> None
        \<and> (policy_trigger P \<in> set [''none'', ''boot''] \<longrightarrow> trigger_limit P = Some 0))
   \<and> set_policy (fst (set_policy P)) = (fst (set_policy P), snd (set_policy P))"
proof (intro conjI)
  have a: "fst (set_policy P) = set_policy_defaults P"
    by (simp add: set_policy_def)
  show "fst (set_policy P) = P
     \<lparr>cpu_power_correction := Some (case cpu_power_correction P of None \<Rightarrow> ''auto'' | Some c \<Rightarrow> c),
      storage := Some (case storage P of None \<Rightarrow> ''persistent'' | Some s \<Rightarrow> s),
      trigger_limit := (if policy_trigger P \<in> set [''none'', ''boot''] then Some 0
                        else trigger_limit P)\<rparr>"
    unfolding a by (rule set_policy_defaults_fields)
  show "fst (set_policy P) = P \<longleftrightarrow>
        cpu_power_correction P \<noteq> None \<and> storage P \<noteq> None
        \<and> (policy_trigger P \<in> set [''none'', ''boot''] \<longrightarrow> trigger_limit P = Some 0)"
    unfolding a by (rule set_policy_defaults_fixed)
  show "set_policy (fst (set_policy P)) = (fst (set_policy P), snd (set_policy P))"
    by (simp add: set_policy_def set_policy_defaults_idem)
qed

text \<open>The example policy lacks both keys: the call changes it, a second call does not.\<close>

theorem set_policy_writes_defaults_witness:
  "fst (set_policy example_policy) \<noteq> example_policy
   \<and> fst (set_policy (fst (set_policy example_policy))) = fst (set_policy example_policy)
   \<and> snd (set_policy (fst (set_policy example_policy))) = snd (set_policy example_policy)"
proof -
  have "cpu_power_correction example_policy = None"
    by (simp add: example_policy_def)
  with conjunct1 [OF conjunct2 [OF set_policy_writes_defaults [of example_policy]]]
  have "fst (set_policy example_policy) \<noteq> example_policy" by simp
  moreover from conjunct2 [OF conjunct2 [OF set_policy_writes_defaults [of example_policy]]]
  have "set_policy (fst (set_policy example_policy))
      = (fst (set_policy example_policy), snd (set_policy example_policy))" .
  ultimately show ?thesis by simp
qed

text \<open>The mapping after the call differs from the mapping before it.\<close>

theorem set_policy_leaves_input_counterexample:
  "fst (set_policy example_policy) \<noteq> example_policy"
proof
  assume "fst (set_policy example_policy) = example_policy"
  then have "cpu_power_correction (set_policy_defaults example_policy)
      = cpu_power_correction example_policy"
    by (simp add: set_policy_def)
  then show False
    by (simp add: set_policy_defaults_new example_policy_def)
qed

section \<open>Failures of the parsers\<close>














lemma messages_distinct:
  "wrong_length \<noteq> corrupted" "wrong_length \<noteq> cannot_convert" "corrupted \<noteq> cannot_convert"
  by (simp_all add: wrong_length_def corrupted_def cannot_convert_def)








section \<open>Properties of \<open>parse_slave_and_channel\<close>\<close>

lemma hexlify_append: "hexlify (a @ b) = hexlify a @ hexlify b"
  by (simp add: hexlify_def)

lemma length_hexlify: "length (hexlify bs) = 2 * length bs"
  by (induction bs) (simp_all add: hexlify_def)

lemma hexlify_prefix_bytes: "hexlify [0x57, 0x01, 0x00, 0x0d, 0x01] = ''5701000d01''"
  by code_simp

lemma not_prefix_take: "\<not> prefix sub s \<Longrightarrow> take (length sub) s \<noteq> sub"
  by (metis take_is_prefix)

lemma prefix_take: "prefix sub s \<Longrightarrow> take (length sub) s = sub"
  by (auto simp: prefix_def)

lemma str_find_first:
  "str_find sub s = Some i \<Longrightarrow>
     i + length sub \<le> length s \<and> take (length sub) (drop i s) = sub
     \<and> (\<forall>j<i. take (length sub) (drop j s) \<noteq> sub)"
proof (induction s arbitrary: i)
  case Nil
  then show ?case by (simp split: if_splits)
next
  case (Cons c cs)
  show ?case
  proof (cases "prefix sub (c # cs)")
    case True
    with Cons.prems have "i = 0" by simp
    with prefix_take [OF True] prefix_length_le [OF True] show ?thesis by simp
  next
    case False
    with Cons.prems obtain k where k: "str_find sub cs = Some k" "i = Suc k" by auto
    from Cons.IH [OF k(1)] have ih: "k + length sub \<le> length cs"
      "take (length sub) (drop k cs) = sub" "\<forall>j<k. take (length sub) (drop j cs) \<noteq> sub"
      by simp_all
    have "\<forall>j<Suc k. take (length sub) (drop j (c # cs)) \<noteq> sub"
    proof (intro allI impI)
      fix j assume "j < Suc k"
      show "take (length sub) (drop j (c # cs)) \<noteq> sub"
      proof (cases j)
        case 0
        then show ?thesis using not_prefix_take [OF False] by simp
      next
        case (Suc m)
        with \<open>j < Suc k\<close> ih(3) show ?thesis by simp
      qed
    qed
    with ih k(2) show ?thesis by simp
  qed
qed

lemma str_find_None:
  "str_find sub s = None \<Longrightarrow> take (length sub) (drop j s) \<noteq> sub"
proof (induction s arbitrary: j)
  case Nil
  then show ?case by (auto split: if_splits)
next
  case (Cons c cs)
  from Cons.prems have np: "\<not> prefix sub (c # cs)" and r: "str_find sub cs = None"
    by (auto split: if_splits)
  show ?case
  proof (cases j)
    case 0
    then show ?thesis using not_prefix_take [OF np] by simp
  next
    case (Suc m)
    then show ?thesis using Cons.IH [OF r, of m] by simp
  qed
qed

lemma take2_drop: "n + 2 \<le> length h \<Longrightarrow> take 2 (drop n h) = [h ! n, h ! Suc n]"
  by (simp add: take_Suc_conv_app_nth numeral_2_eq_2)

lemma parse_slave_and_channel_at:
  assumes f: "str_find ''5701000d01'' (hexlify data) = Some i"
    and len: "i + 13 \<le> length (hexlify data)"
  shows "parse_slave_and_channel data =
           Inr (Some (''0x'' @ [hexlify data ! (i + 10), hexlify data ! (i + 11)],
                      ''0x0'' @ [hexlify data ! (i + 12)]))"
proof -
  define h where "h = hexlify data"
  define n where "n = i + 10"
  define ret where "ret = list_slice h n (n + 4)"
  have pl: "length ''5701000d01'' = 10" by simp
  have ret: "ret = take 4 (drop n h)"
    by (simp add: ret_def list_slice_def)
  have n: "n + 3 \<le> length h" using len by (simp add: n_def h_def)
  then have a: "list_index ret 2 = Inr (h ! (n + 2))"
    by (simp add: ret list_index_def)
  have "list_slice ret 0 2 = take 2 (drop n h)"
    by (simp add: ret list_slice_def)
  with n have b: "list_slice ret 0 2 = [h ! n, h ! Suc n]"
    by (simp add: take2_drop)
  have "parse_slave_and_channel data = exc_bind (list_index ret 2) (\<lambda>c.
      Inr (Some (''0x'' @ list_slice ret 0 2, ''0x0'' @ [c])))"
    by (simp only: parse_slave_and_channel_def Let_def f option.case pl ret_def n_def h_def)
  also have "\<dots> = Inr (Some (''0x'' @ [h ! n, h ! Suc n], ''0x0'' @ [h ! (n + 2)]))"
    by (simp add: a b)
  finally show ?thesis
    by (simp add: n_def h_def add.commute)
qed


text \<open>
  Claim C9, as amended. When the text \<open>5701000d01\<close> does not occur in the hexadecimal
  dump of the file, \<open>parse_slave_and_channel\<close> returns nothing and does not raise. When
  at least three hexadecimal digits follow its first occurrence, the function returns
  \<open>0x\<close> with the first two of them and \<open>0x0\<close> with the third; when that occurrence
  is the five bytes \<open>57 01 00 0d 01\<close> of the file, followed by at least two bytes, these
  are the byte after the prefix, in two lower-case digits, and the high nibble of the
  byte after it.
\<close>

theorem parse_slave_and_channel_first_match:
  "(str_find ''5701000d01'' (hexlify data) = None \<longrightarrow> parse_slave_and_channel data = Inr None)
   \<and> (\<forall>i. str_find ''5701000d01'' (hexlify data) = Some i \<and> i + 13 \<le> length (hexlify data) \<longrightarrow>
         parse_slave_and_channel data =
           Inr (Some (''0x'' @ [hexlify data ! (i + 10), hexlify data ! (i + 11)],
                      ''0x0'' @ [hexlify data ! (i + 12)])))
   \<and> (\<forall>pre s c rest.
         data = pre @ [0x57, 0x01, 0x00, 0x0d, 0x01] @ s # c # rest
         \<and> str_find ''5701000d01'' (hexlify data) = Some (2 * length pre) \<longrightarrow>
         parse_slave_and_channel data =
           Inr (Some (''0x'' @ hexlify [s], ''0x0'' @ [lower_digit (unat c div 16)])))"
proof (intro conjI allI impI)
  assume "str_find ''5701000d01'' (hexlify data) = None"
  then show "parse_slave_and_channel data = Inr None"
    by (simp add: parse_slave_and_channel_def)
next
  fix i
  assume "str_find ''5701000d01'' (hexlify data) = Some i \<and> i + 13 \<le> length (hexlify data)"
  then show "parse_slave_and_channel data =
           Inr (Some (''0x'' @ [hexlify data ! (i + 10), hexlify data ! (i + 11)],
                      ''0x0'' @ [hexlify data ! (i + 12)]))"
    using parse_slave_and_channel_at by blast
next
  fix pre s c rest
  assume a: "data = pre @ [0x57, 0x01, 0x00, 0x0d, 0x01] @ s # c # rest
         \<and> str_find ''5701000d01'' (hexlify data) = Some (2 * length pre)"
  define h where "h = hexlify data"
  define k where "k = 2 * length pre"
  have h: "h = hexlify pre @ ''5701000d01'' @ hexlify [s] @ hexlify [c] @ hexlify rest"
    using a hexlify_append [of pre "[0x57, 0x01, 0x00, 0x0d, 0x01] @ s # c # rest"]
      hexlify_append [of "[0x57, 0x01, 0x00, 0x0d, 0x01]" "s # c # rest"]
      hexlify_append [of "[s]" "c # rest"] hexlify_append [of "[c]" rest]
    by (simp add: h_def hexlify_prefix_bytes)
  have k: "length (hexlify pre) = k"
    by (simp add: k_def length_hexlify)
  have len: "k + 13 \<le> length h"
    unfolding h by (simp add: length_hexlify k_def)
  define tl where "tl = ''5701000d01'' @ hexlify [s] @ hexlify [c] @ hexlify rest"
  have tl: "tl ! 10 = lower_digit (unat s div 16)" "tl ! 11 = lower_digit (unat s mod 16)"
    "tl ! 12 = lower_digit (unat c div 16)"
    by (simp_all add: tl_def hexlify_def)
  have "h = hexlify pre @ tl"
    by (simp add: h tl_def)
  then have "\<And>j. h ! (k + j) = tl ! j"
    using k by (metis nth_append_length_plus)
  with tl have n: "h ! (k + 10) = lower_digit (unat s div 16)"
    "h ! (k + 11) = lower_digit (unat s mod 16)"
    "h ! (k + 12) = lower_digit (unat c div 16)"
    by simp_all
  have f: "str_find ''5701000d01'' (hexlify data) = Some k"
    unfolding k_def using a by (rule conjunct2)
  from parse_slave_and_channel_at [OF f] len
  have "parse_slave_and_channel data =
      Inr (Some (''0x'' @ [h ! (k + 10), h ! (k + 11)], ''0x0'' @ [h ! (k + 12)]))"
    by (simp add: h_def)
  then show "parse_slave_and_channel data =
           Inr (Some (''0x'' @ hexlify [s], ''0x0'' @ [lower_digit (unat c div 16)]))"
    by (simp add: n hexlify_def)
qed

text \<open>
  A record with the prefix followed by the bytes \<open>0xAB\<close> and \<open>0xCD\<close>, and a file
  without the prefix.
\<close>

theorem parse_slave_and_channel_first_match_witness:
  "str_find ''5701000d01'' (hexlify [0x00, 0x57, 0x01, 0x00, 0x0d, 0x01, 0xAB, 0xCD, 0x11]) = Some 2
   \<and> parse_slave_and_channel [0x00, 0x57, 0x01, 0x00, 0x0d, 0x01, 0xAB, 0xCD, 0x11]
       = Inr (Some (''0xab'', ''0x0c''))
   \<and> str_find ''5701000d01'' (hexlify [0x57, 0x01, 0x00, 0x0d]) = None
   \<and> parse_slave_and_channel [0x57, 0x01, 0x00, 0x0d] = Inr None"
proof -
  let ?d = "[0x00, 0x57, 0x01, 0x00, 0x0d, 0x01, 0xAB, 0xCD, 0x11] :: byte list"
  have f: "str_find ''5701000d01'' (hexlify ?d) = Some 2"
    by code_simp
  have g: "str_find ''5701000d01'' (hexlify ([0x57, 0x01, 0x00, 0x0d] :: byte list)) = None"
    by code_simp
  have d: "?d = [0x00] @ [0x57, 0x01, 0x00, 0x0d, 0x01] @ 0xAB # 0xCD # [0x11]"
    by simp
  have l: "2 * length [0x00 :: byte] = 2"
    by simp
  have v: "hexlify [0xAB :: byte] = ''ab''" "lower_digit (unat (0xCD :: byte) div 16) = CHR ''c''"
    by code_simp+
  note inst = parse_slave_and_channel_first_match [of ?d]
  from conjunct2 [OF conjunct2 [OF inst]] d f l
  have "parse_slave_and_channel ?d
      = Inr (Some (''0x'' @ hexlify [0xAB], ''0x0'' @ [lower_digit (unat (0xCD :: byte) div 16)]))"
    by metis
  moreover from conjunct1 [OF parse_slave_and_channel_first_match [of "[0x57, 0x01, 0x00, 0x0d]"]] g
  have "parse_slave_and_channel [0x57, 0x01, 0x00, 0x0d] = Inr None"
    by blast
  ultimately show ?thesis using f g v by simp
qed

text \<open>
  A file that ends one byte after the prefix: the prefix occurs, and the function raises
  \<open>IndexError\<close> instead of returning a pair.
\<close>

theorem parse_slave_and_channel_truncated_counterexample:
  "str_find ''5701000d01'' (hexlify [0x57, 0x01, 0x00, 0x0d, 0x01, 0xAB]) = Some 0
   \<and> parse_slave_and_channel [0x57, 0x01, 0x00, 0x0d, 0x01, 0xAB] = Inl IndexError"
  by code_simp

section \<open>Properties of the deploy driver\<close>

lemma py_trunc_nonneg: "0 \<le> x \<Longrightarrow> py_trunc x = \<lfloor>x\<rfloor>"
  by (simp add: py_trunc_def)

text \<open>
  Claim C8. For an image size that is not negative (and below \<open>2 ^ 53\<close>, where the
  quotient is exact in floating point), the memory requirement is the size divided by
  \<open>2 ^ 20\<close>, rounded down, plus the configured extra memory.
\<close>

theorem calculate_memory_req_floor:
  assumes "0 \<le> image_size" and "image_size < 2 ^ 53"
  shows "calculate_memory_req image_size extra_memory = image_size div 2 ^ 20 + extra_memory"
proof -
  have "(0::rat) \<le> of_int image_size / of_int Mi"
    using assms(1) by (simp add: Mi_def)
  then have "py_trunc (of_int image_size / of_int Mi) = \<lfloor>(of_int image_size :: rat) / of_int Mi\<rfloor>"
    by (rule py_trunc_nonneg)
  also have "\<dots> = image_size div Mi"
    by (rule floor_divide_of_int_eq)
  finally show ?thesis
    by (simp add: calculate_memory_req_def Mi_def)
qed

text \<open>An image of exactly two MiB with an extra memory of 10: the requirement is 12.\<close>

theorem calculate_memory_req_floor_witness:
  "(0::int) \<le> 2 * 2 ^ 20 \<and> (2 * 2 ^ 20 :: int) < 2 ^ 53 \<and> calculate_memory_req (2 * 2 ^ 20) 10 = 12"
proof -
  have h: "(0::int) \<le> 2 * 2 ^ 20" "(2 * 2 ^ 20 :: int) < 2 ^ 53"
    by simp_all
  from calculate_memory_req_floor [OF h, of 10] h show ?thesis
    by simp
qed


lemma coerce_param_Inr: "py_int v = Inr n \<Longrightarrow> coerce_param p v = Inr n"
  by (simp add: coerce_param_def)

lemma coerce_param_ValueError: "py_int v = Inl ValueError \<Longrightarrow> coerce_param p v = Inl (InvalidParameterValue p)"
  by (simp add: coerce_param_def)

lemma coerce_param_TypeError: "py_int v = Inl TypeError \<Longrightarrow> coerce_param p v = Inl (Uncaught TypeError)"
  by (simp add: coerce_param_def)

lemma disk_layout_params:
  "DISK_LAYOUT_PARAMS ! 0 = ''root_gb''" "DISK_LAYOUT_PARAMS ! 1 = ''swap_mb''"
  "DISK_LAYOUT_PARAMS ! 2 = ''ephemeral_gb''"
  by (simp_all add: DISK_LAYOUT_PARAMS_def)

lemma parse_partitioning_info_coerced:
  assumes ok: "\<not> check_for_missing_params ext (map_get info ''root_gb'' VNone)"
    and r: "py_int (map_get info ''root_gb'' VNone) = Inr root_gb"
    and s: "py_int (map_get info ''swap_mb'' (VInt 0)) = Inr swap_mb"
    and e: "py_int (map_get info ''ephemeral_gb'' (VInt 0)) = Inr ephemeral_gb"
  shows "parse_partitioning_info ext uuid info =
     (let i_info = [''swap_mb'' \<mapsto> VInt swap_mb, ''ephemeral_gb'' \<mapsto> VInt ephemeral_gb];
            partitions = [partition ''root'' (1024 * root_gb) ''yes'' ''no''];
            (i_info, partitions) =
              (if swap_mb \<noteq> 0
               then (i_info(''swap_mb'' := None),
                     partitions @ [partition ''swap'' swap_mb ''no'' ''yes''])
               else (i_info, partitions)) in
        exc_bind
          (if ephemeral_gb \<noteq> 0
           then
             (let partitions = partitions @ [partition ''ephemeral'' (1024 * ephemeral_gb) ''no'' ''no''];
                  i_info = i_info(''ephemeral_gb'' := None);
                  fmt = map_get info ''ephemeral_format'' VNone;
                  i_info = i_info(''ephemeral_format'' \<mapsto>
                             (if \<not> truthy fmt then default_ephemeral_format ext else fmt));
                  preserve_ephemeral = map_get info ''preserve_ephemeral'' (VBool False)
              in case bool_from_string ext preserve_ephemeral of
                   None \<Rightarrow> Inl (InvalidParameterValue ''preserve_ephemeral'')
                 | Some b \<Rightarrow>
                     Inr (i_info(''preserve_ephemeral'' \<mapsto> VStr (if b then ''yes'' else ''no'')),
                          partitions))
           else Inr (i_info, partitions))
          (\<lambda>(i_info, partitions).
        let i_info = i_info(''ironic_partitions'' \<mapsto> VList partitions);
            configdrive = map_get info ''configdrive'' VNone in
        if truthy configdrive
        then (case configdrive of
                VStr s \<Rightarrow>
                  if urlparse_scheme ext s \<in> set [''http'', ''https'']
                  then Inr (i_info(''configdrive'' \<mapsto> configdrive), None)
                  else Inr (i_info(''configdrive'' \<mapsto> VStr ''file''),
                            Some (get_configdrive_path ext uuid, s))
              | _ \<Rightarrow> Inl (Uncaught AttributeError))
        else Inr (i_info, None)))"
  unfolding parse_partitioning_info_def
  by (simp only: Let_def ok if_False disk_layout_params coerce_param_Inr [OF r]
      coerce_param_Inr [OF s] coerce_param_Inr [OF e] exc_bind_Inr)

text \<open>
  Claim C5. Let the orchestrator's check accept the value of \<open>root_gb\<close>, and let
  \<open>int\<close> convert the values of \<open>root_gb\<close>, \<open>swap_mb\<close> and \<open>ephemeral_gb\<close> (0 for
  the last two when absent). Then every result of \<open>_parse_partitioning_info\<close> has the
  plan: the root partition of \<open>1024 * root_gb\<close> MiB first, then the swap partition of
  \<open>swap_mb\<close> MiB exactly when \<open>swap_mb\<close> is not zero, then the ephemeral partition
  of \<open>1024 * ephemeral_gb\<close> MiB exactly when \<open>ephemeral_gb\<close> is not zero; with an
  ephemeral partition, \<open>ephemeral_format\<close> is the one of the node, or the configured
  default when the node has none. The function returns such a result whenever
  \<open>preserve_ephemeral\<close> can be read as a truth value (it is read only with an
  ephemeral partition) and \<open>configdrive\<close> is absent, empty or a string.
\<close>

theorem parse_partitioning_info_plan:
  assumes ok: "\<not> check_for_missing_params ext (map_get info ''root_gb'' VNone)"
    and r: "py_int (map_get info ''root_gb'' VNone) = Inr root_gb"
    and s: "py_int (map_get info ''swap_mb'' (VInt 0)) = Inr swap_mb"
    and e: "py_int (map_get info ''ephemeral_gb'' (VInt 0)) = Inr ephemeral_gb"
  shows "(\<forall>i_info written. parse_partitioning_info ext uuid info = Inr (i_info, written) \<longrightarrow>
           i_info ''ironic_partitions'' = Some (VList
             ([partition ''root'' (1024 * root_gb) ''yes'' ''no'']
              @ (if swap_mb \<noteq> 0 then [partition ''swap'' swap_mb ''no'' ''yes''] else [])
              @ (if ephemeral_gb \<noteq> 0
                 then [partition ''ephemeral'' (1024 * ephemeral_gb) ''no'' ''no''] else [])))
           \<and> (ephemeral_gb \<noteq> 0 \<longrightarrow>
                i_info ''ephemeral_format'' =
                  Some (if truthy (map_get info ''ephemeral_format'' VNone)
                        then map_get info ''ephemeral_format'' VNone
                        else default_ephemeral_format ext)))
     \<and> ((ephemeral_gb = 0
           \<or> bool_from_string ext (map_get info ''preserve_ephemeral'' (VBool False)) \<noteq> None)
          \<and> (\<not> truthy (map_get info ''configdrive'' VNone)
               \<or> (\<exists>c. map_get info ''configdrive'' VNone = VStr c)) \<longrightarrow>
         (\<exists>i_info written. parse_partitioning_info ext uuid info = Inr (i_info, written)))"
proof -
  note nf = parse_partitioning_info_coerced [OF ok r s e, of uuid]
  have plan: "i_info ''ironic_partitions'' = Some (VList
             ([partition ''root'' (1024 * root_gb) ''yes'' ''no'']
              @ (if swap_mb \<noteq> 0 then [partition ''swap'' swap_mb ''no'' ''yes''] else [])
              @ (if ephemeral_gb \<noteq> 0
                 then [partition ''ephemeral'' (1024 * ephemeral_gb) ''no'' ''no''] else [])))"
    if "parse_partitioning_info ext uuid info = Inr (i_info, written)" for i_info written
    using that unfolding nf
    by (auto simp: Let_def split: if_splits option.splits pyval.splits)
  have fmt: "i_info ''ephemeral_format'' =
                  Some (if truthy (map_get info ''ephemeral_format'' VNone)
                        then map_get info ''ephemeral_format'' VNone
                        else default_ephemeral_format ext)"
    if "parse_partitioning_info ext uuid info = Inr (i_info, written)" "ephemeral_gb \<noteq> 0"
    for i_info written
    using that unfolding nf
    by (auto simp: Let_def split: if_splits option.splits pyval.splits)
  have ret: "\<exists>i_info written. parse_partitioning_info ext uuid info = Inr (i_info, written)"
    if "(ephemeral_gb = 0
           \<or> bool_from_string ext (map_get info ''preserve_ephemeral'' (VBool False)) \<noteq> None)
          \<and> (\<not> truthy (map_get info ''configdrive'' VNone)
               \<or> (\<exists>c. map_get info ''configdrive'' VNone = VStr c))"
    using that unfolding nf
    by (auto simp: Let_def split: if_splits option.splits pyval.splits)
  from plan fmt ret show ?thesis by blast
qed


lemma example_collaborators_simps:
  "check_for_missing_params example_collaborators v = (\<not> truthy v)"
  "default_ephemeral_format example_collaborators = VStr ''ext4''"
  "bool_from_string example_collaborators (VBool b) = Some b"
  by (simp_all add: example_collaborators_def)

text \<open>
  \<open>root_gb = 10\<close>, \<open>swap_mb = '512'\<close>, \<open>ephemeral_gb = 5\<close>: the partitions root of
  10240, swap of 512 and ephemeral of 5120 MiB, in this order, and the default format.
\<close>

theorem parse_partitioning_info_plan_witness:
  "\<not> check_for_missing_params example_collaborators
       (map_get [''root_gb'' \<mapsto> VInt 10, ''swap_mb'' \<mapsto> VStr ''512'', ''ephemeral_gb'' \<mapsto> VInt 5]
          ''root_gb'' VNone)
   \<and> (\<exists>i_info written.
        parse_partitioning_info example_collaborators ''node''
          [''root_gb'' \<mapsto> VInt 10, ''swap_mb'' \<mapsto> VStr ''512'', ''ephemeral_gb'' \<mapsto> VInt 5]
          = Inr (i_info, written)
        \<and> i_info ''ironic_partitions'' = Some (VList
             [partition ''root'' 10240 ''yes'' ''no'', partition ''swap'' 512 ''no'' ''yes'',
              partition ''ephemeral'' 5120 ''no'' ''no''])
        \<and> i_info ''ephemeral_format'' = Some (VStr ''ext4''))"
proof -
  let ?info = "[''root_gb'' \<mapsto> VInt 10, ''swap_mb'' \<mapsto> VStr ''512'', ''ephemeral_gb'' \<mapsto> VInt 5]"
  have g: "map_get ?info ''root_gb'' VNone = VInt 10" "map_get ?info ''swap_mb'' (VInt 0) = VStr ''512''"
    "map_get ?info ''ephemeral_gb'' (VInt 0) = VInt 5"
    "map_get ?info ''ephemeral_format'' VNone = VNone"
    "map_get ?info ''preserve_ephemeral'' (VBool False) = VBool False"
    "map_get ?info ''configdrive'' VNone = VNone"
    by (simp_all add: map_get_def)
  have ok: "\<not> check_for_missing_params example_collaborators (map_get ?info ''root_gb'' VNone)"
    by (simp add: g example_collaborators_simps)
  have r: "py_int (map_get ?info ''root_gb'' VNone) = Inr 10"
    by (simp add: g)
  have "int_of_string 10 ''512'' = Some 512"
    by code_simp
  then have s: "py_int (map_get ?info ''swap_mb'' (VInt 0)) = Inr 512"
    by (simp add: g)
  have e: "py_int (map_get ?info ''ephemeral_gb'' (VInt 0)) = Inr 5"
    by (simp add: g)
  note t = parse_partitioning_info_plan [OF ok r s e, of "''node''"]
  have "(5::int) = 0 \<or> bool_from_string example_collaborators
           (map_get ?info ''preserve_ephemeral'' (VBool False)) \<noteq> None"
    by (simp add: g example_collaborators_simps)
  moreover have "\<not> truthy (map_get ?info ''configdrive'' VNone)
      \<or> (\<exists>c. map_get ?info ''configdrive'' VNone = VStr c)"
    by (simp add: g)
  ultimately obtain i_info written where
    res: "parse_partitioning_info example_collaborators ''node'' ?info = Inr (i_info, written)"
    using conjunct2 [OF t] by blast
  have five: "(5::int) \<noteq> 0" by simp
  from conjunct1 [OF t] res five have
    "i_info ''ironic_partitions'' = Some (VList
             ([partition ''root'' (1024 * 10) ''yes'' ''no'']
              @ (if (512::int) \<noteq> 0 then [partition ''swap'' 512 ''no'' ''yes''] else [])
              @ (if (5::int) \<noteq> 0
                 then [partition ''ephemeral'' (1024 * 5) ''no'' ''no''] else [])))"
    "i_info ''ephemeral_format'' =
                  Some (if truthy (map_get ?info ''ephemeral_format'' VNone)
                        then map_get ?info ''ephemeral_format'' VNone
                        else default_ephemeral_format example_collaborators)"
    by blast+
  then have "i_info ''ironic_partitions'' = Some (VList
             [partition ''root'' 10240 ''yes'' ''no'', partition ''swap'' 512 ''no'' ''yes'',
              partition ''ephemeral'' 5120 ''no'' ''no''])"
    "i_info ''ephemeral_format'' = Some (VStr ''ext4'')"
    by (simp_all add: g example_collaborators_simps)
  with ok res show ?thesis by blast
qed

text \<open>
  Claim C6, as amended. \<open>_parse_partitioning_info\<close> fails with \<open>MissingParameterValue\<close>
  when \<open>root_gb\<close> is absent (given that the orchestrator's check rejects an absent
  value). When the check accepts \<open>root_gb\<close>, the function fails with
  \<open>InvalidParameterValue\<close> naming the first of \<open>root_gb\<close>, \<open>swap_mb\<close>,
  \<open>ephemeral_gb\<close> for which \<open>int\<close> raises \<open>ValueError\<close>, as it does for a string that
  is no integer. In either case no mapping is returned.
\<close>

theorem parse_partitioning_info_invalid_input:
  "(info ''root_gb'' = None \<and> check_for_missing_params ext VNone \<longrightarrow>
      parse_partitioning_info ext uuid info = Inl MissingParameterValue)
   \<and> (\<not> check_for_missing_params ext (map_get info ''root_gb'' VNone) \<longrightarrow>
        (py_int (map_get info ''root_gb'' VNone) = Inl ValueError \<longrightarrow>
           parse_partitioning_info ext uuid info = Inl (InvalidParameterValue ''root_gb''))
        \<and> (\<forall>n. py_int (map_get info ''root_gb'' VNone) = Inr n
               \<and> py_int (map_get info ''swap_mb'' (VInt 0)) = Inl ValueError \<longrightarrow>
           parse_partitioning_info ext uuid info = Inl (InvalidParameterValue ''swap_mb''))
        \<and> (\<forall>n m. py_int (map_get info ''root_gb'' VNone) = Inr n
               \<and> py_int (map_get info ''swap_mb'' (VInt 0)) = Inr m
               \<and> py_int (map_get info ''ephemeral_gb'' (VInt 0)) = Inl ValueError \<longrightarrow>
           parse_partitioning_info ext uuid info = Inl (InvalidParameterValue ''ephemeral_gb'')))"
proof -
  have missing: "parse_partitioning_info ext uuid info = Inl MissingParameterValue"
    if "info ''root_gb'' = None \<and> check_for_missing_params ext VNone"
    using that by (simp add: parse_partitioning_info_def map_get_def)
  have invalid:
    "py_int (map_get info ''root_gb'' VNone) = Inl ValueError \<longrightarrow>
           parse_partitioning_info ext uuid info = Inl (InvalidParameterValue ''root_gb'')"
    "\<forall>n. py_int (map_get info ''root_gb'' VNone) = Inr n
               \<and> py_int (map_get info ''swap_mb'' (VInt 0)) = Inl ValueError \<longrightarrow>
           parse_partitioning_info ext uuid info = Inl (InvalidParameterValue ''swap_mb'')"
    "\<forall>n m. py_int (map_get info ''root_gb'' VNone) = Inr n
               \<and> py_int (map_get info ''swap_mb'' (VInt 0)) = Inr m
               \<and> py_int (map_get info ''ephemeral_gb'' (VInt 0)) = Inl ValueError \<longrightarrow>
           parse_partitioning_info ext uuid info = Inl (InvalidParameterValue ''ephemeral_gb'')"
    if ok: "\<not> check_for_missing_params ext (map_get info ''root_gb'' VNone)"
    unfolding parse_partitioning_info_def
    by (simp_all only: Let_def ok if_False disk_layout_params)
       (simp_all add: coerce_param_def)
  from missing invalid show ?thesis by blast
qed

text \<open>An \<open>instance_info\<close> without \<open>root_gb\<close>, and one whose \<open>swap_mb\<close> is no number.\<close>

theorem parse_partitioning_info_invalid_input_witness:
  "parse_partitioning_info example_collaborators ''node'' Map.empty = Inl MissingParameterValue
   \<and> parse_partitioning_info example_collaborators ''node''
        [''root_gb'' \<mapsto> VInt 10, ''swap_mb'' \<mapsto> VStr ''lots'']
       = Inl (InvalidParameterValue ''swap_mb'')"
proof -
  let ?info = "[''root_gb'' \<mapsto> VInt 10, ''swap_mb'' \<mapsto> VStr ''lots'']"
  have a: "Map.empty ''root_gb'' = None \<and> check_for_missing_params example_collaborators VNone"
    by (simp add: example_collaborators_simps)
  have g: "map_get ?info ''root_gb'' VNone = VInt 10" "map_get ?info ''swap_mb'' (VInt 0) = VStr ''lots''"
    by (simp_all add: map_get_def)
  have b: "\<not> check_for_missing_params example_collaborators (map_get ?info ''root_gb'' VNone)"
    by (simp add: g example_collaborators_simps)
  have "int_of_string 10 ''lots'' = None"
    by code_simp
  then have c: "py_int (map_get ?info ''root_gb'' VNone) = Inr 10
      \<and> py_int (map_get ?info ''swap_mb'' (VInt 0)) = Inl ValueError"
    by (simp add: g)
  from parse_partitioning_info_invalid_input [of Map.empty example_collaborators "''node''"] a
    parse_partitioning_info_invalid_input [of ?info example_collaborators "''node''"] b c
  show ?thesis by blast
qed

text \<open>
  An \<open>instance_info\<close> whose \<open>swap_mb\<close> is \<open>null\<close>: \<open>int(None)\<close> raises
  \<open>TypeError\<close>, which the function does not catch.
\<close>

theorem parse_partitioning_info_null_counterexample:
  "parse_partitioning_info example_collaborators ''node''
     [''root_gb'' \<mapsto> VInt 10, ''swap_mb'' \<mapsto> VNone]
   = Inl (Uncaught TypeError)"
  by (simp add: parse_partitioning_info_def map_get_def example_collaborators_simps
      disk_layout_params coerce_param_def)

lemma clean_steps_loop_append:
  "clean_steps_loop interface override pre = Inr steps \<Longrightarrow>
   clean_steps_loop interface override (pre @ rest)
     = exc_bind (clean_steps_loop interface override rest) (\<lambda>more. Inr (steps @ more))"
proof (induction pre arbitrary: steps)
  case Nil
  then show ?case by (cases "clean_steps_loop interface override rest") simp_all
next
  case (Cons entry pre)
  from Cons.prems obtain params where entry: "entry = VDict params"
    by (cases entry) simp_all
  from Cons.prems obtain clean_if where ci: "getitem params ''interface'' = Inr clean_if"
    unfolding entry by (auto simp: Let_def dest!: exc_bind_InrD)
  show ?case
  proof (cases "case interface of None \<Rightarrow> False | Some i \<Rightarrow> VStr i \<noteq> clean_if")
    case True
    with Cons.prems ci have "clean_steps_loop interface override pre = Inr steps"
      by (simp add: entry Let_def)
    from Cons.IH [OF this] True ci show ?thesis
      by (simp add: entry Let_def)
  next
    case False
    with Cons.prems ci obtain new_priority priority tail where
      np: "override_get override (dict_get params ''name'' VNone) = Inr new_priority"
      and pr: "(if new_priority \<noteq> VNone then Inr new_priority
                  else getitem params ''priority'') = Inr priority"
      and tl: "clean_steps_loop interface override pre = Inr tail"
      and st: "steps = VDict [(''step'', dict_get params ''name'' VNone), (''priority'', priority),
                          (''abortable'', dict_get params ''abortable'' (VBool False)),
                          (''argsinfo'', dict_get params ''argsinfo'' VNone),
                          (''interface'', clean_if),
                          (''tags'', dict_get params ''tags'' (VList []))] # tail"
      unfolding entry by (auto simp: Let_def dest!: exc_bind_InrD)
    from Cons.IH [OF tl] False ci np pr st show ?thesis
      by (cases "clean_steps_loop interface override rest") (simp_all add: entry Let_def)
  qed
qed

lemma clean_steps_loop_no_interface:
  "map_of params ''interface'' = None \<Longrightarrow>
   clean_steps_loop interface override (VDict params # post) = Inl KeyError"
  for params :: "(string \<times> pyval) list"
  by (simp add: getitem_def Let_def)

lemma clean_steps_loop_no_priority:
  fixes params :: "(string \<times> pyval) list"
  assumes "map_of params ''interface'' = Some clean_if"
    and "interface = None \<or> interface = Some i \<and> clean_if = VStr i"
    and "override_get override (dict_get params ''name'' VNone) = Inr VNone"
    and "map_of params ''priority'' = None"
  shows "clean_steps_loop interface override (VDict params # post) = Inl KeyError"
  using assms by (auto simp: getitem_def Let_def)

lemma get_clean_steps_loaded:
  "get_clean_steps (Some (VList entries)) interface ov =
     (case clean_steps_loop interface (case ov of None \<Rightarrow> [] | Some d \<Rightarrow> d) entries of
        Inl e \<Rightarrow> Inl (Uncaught e) | Inr steps \<Rightarrow> Inr steps)"
  by (simp add: get_clean_steps_def)

text \<open>
  Claim C10, as amended. \<open>_get_clean_steps\<close> fails with \<open>NodeCleaningFailure\<close> when
  the file cannot be opened or loaded, and never once it is loaded, whatever the document
  holds. When the entries before it are processed without an exception, an entry without
  \<open>interface\<close> makes the function raise a raw \<open>KeyError\<close>, and so does an entry
  without \<open>priority\<close> that passes the filter on the interface and for whose name
  \<open>override_priorities\<close> gives no priority.
\<close>

theorem get_clean_steps_key_errors:
  "get_clean_steps None interface ov = Inl NodeCleaningFailure
   \<and> get_clean_steps (Some doc) interface ov \<noteq> Inl NodeCleaningFailure
   \<and> (\<forall>pre steps params post.
        clean_steps_loop interface (case ov of None \<Rightarrow> [] | Some d \<Rightarrow> d) pre = Inr steps
        \<and> map_of params ''interface'' = None \<longrightarrow>
        get_clean_steps (Some (VList (pre @ VDict params # post))) interface ov
          = Inl (Uncaught KeyError))
   \<and> (\<forall>pre steps params post clean_if.
        clean_steps_loop interface (case ov of None \<Rightarrow> [] | Some d \<Rightarrow> d) pre = Inr steps
        \<and> map_of params ''interface'' = Some clean_if
        \<and> (interface = None \<or> interface = Some i \<and> clean_if = VStr i)
        \<and> override_get (case ov of None \<Rightarrow> [] | Some d \<Rightarrow> d) (dict_get params ''name'' VNone)
            = Inr VNone
        \<and> map_of params ''priority'' = None \<longrightarrow>
        get_clean_steps (Some (VList (pre @ VDict params # post))) interface ov
          = Inl (Uncaught KeyError))"
proof (intro conjI allI impI)
  show "get_clean_steps None interface ov = Inl NodeCleaningFailure"
    by (simp add: get_clean_steps_def)
  show "get_clean_steps (Some doc) interface ov \<noteq> Inl NodeCleaningFailure"
    by (simp add: get_clean_steps_def Let_def split: sum.splits)
next
  fix pre steps post and params :: "(string \<times> pyval) list"
  assume a: "clean_steps_loop interface (case ov of None \<Rightarrow> [] | Some d \<Rightarrow> d) pre = Inr steps
        \<and> map_of params ''interface'' = None"
  then show "get_clean_steps (Some (VList (pre @ VDict params # post))) interface ov
          = Inl (Uncaught KeyError)"
    unfolding get_clean_steps_loaded
    using clean_steps_loop_append [of interface _ pre steps "VDict params # post"]
      clean_steps_loop_no_interface [of params interface _ post]
    by simp
next
  fix pre steps post clean_if and params :: "(string \<times> pyval) list"
  assume a: "clean_steps_loop interface (case ov of None \<Rightarrow> [] | Some d \<Rightarrow> d) pre = Inr steps
        \<and> map_of params ''interface'' = Some clean_if
        \<and> (interface = None \<or> interface = Some i \<and> clean_if = VStr i)
        \<and> override_get (case ov of None \<Rightarrow> [] | Some d \<Rightarrow> d) (dict_get params ''name'' VNone)
            = Inr VNone
        \<and> map_of params ''priority'' = None"
  then have "clean_steps_loop interface (case ov of None \<Rightarrow> [] | Some d \<Rightarrow> d)
      (VDict params # post) = Inl KeyError"
    by (intro clean_steps_loop_no_priority [where i = i and clean_if = clean_if]) simp_all
  with a show "get_clean_steps (Some (VList (pre @ VDict params # post))) interface ov
          = Inl (Uncaught KeyError)"
    unfolding get_clean_steps_loaded
    using clean_steps_loop_append [of interface _ pre steps "VDict params # post"]
    by simp
qed

text \<open>
  A file that cannot be loaded; a second entry without \<open>interface\<close>; an entry of the
  interface asked for, without \<open>priority\<close> and without an override.
\<close>

theorem get_clean_steps_key_errors_witness:
  "get_clean_steps None (Some ''deploy'') None = Inl NodeCleaningFailure
   \<and> get_clean_steps
        (Some (VList [VDict [(''name'', VStr ''erase_devices''), (''interface'', VStr ''deploy''),
                             (''priority'', VInt 10)],
                      VDict [(''name'', VStr ''wipe''), (''priority'', VInt 5)]]))
        (Some ''deploy'') None
       = Inl (Uncaught KeyError)
   \<and> get_clean_steps
        (Some (VList [VDict [(''name'', VStr ''wipe''), (''interface'', VStr ''deploy'')]]))
        (Some ''deploy'') (Some [(''erase_devices'', VInt 0)])
       = Inl (Uncaught KeyError)"
proof -
  let ?e1 = "VDict [(''name'', VStr ''erase_devices''), (''interface'', VStr ''deploy''),
                    (''priority'', VInt 10)]"
  let ?p2 = "[(''name'', VStr ''wipe''), (''priority'', VInt 5)]"
  let ?p3 = "[(''name'', VStr ''wipe''), (''interface'', VStr ''deploy'')]"
  note t1 = get_clean_steps_key_errors [of "Some ''deploy''" None VNone "''deploy''"]
  note t2 = get_clean_steps_key_errors [of "Some ''deploy''" "Some [(''erase_devices'', VInt 0)]" VNone "''deploy''"]
  have a: "get_clean_steps None (Some ''deploy'') None = Inl NodeCleaningFailure"
    using t1 by blast
  have "\<exists>steps. clean_steps_loop (Some ''deploy'') (case None of None \<Rightarrow> [] | Some d \<Rightarrow> d) [?e1] = Inr steps"
    by (simp add: getitem_def dict_get_def Let_def)
  moreover have "map_of ?p2 ''interface'' = None"
    by simp
  ultimately have "get_clean_steps (Some (VList ([?e1] @ VDict ?p2 # []))) (Some ''deploy'') None
      = Inl (Uncaught KeyError)"
    using conjunct1 [OF conjunct2 [OF conjunct2 [OF t1]]] by blast
  then have b: "get_clean_steps (Some (VList [?e1, VDict ?p2])) (Some ''deploy'') None
      = Inl (Uncaught KeyError)"
    by simp
  have "clean_steps_loop (Some ''deploy'')
      (case Some [(''erase_devices'', VInt 0)] of None \<Rightarrow> [] | Some d \<Rightarrow> d) [] = Inr []"
    by simp
  moreover have "map_of ?p3 ''interface'' = Some (VStr ''deploy'')" "map_of ?p3 ''priority'' = None"
    "override_get (case Some [(''erase_devices'', VInt 0)] of None \<Rightarrow> [] | Some d \<Rightarrow> d)
       (dict_get ?p3 ''name'' VNone) = Inr VNone"
    by (simp_all add: dict_get_def)
  ultimately have "get_clean_steps (Some (VList ([] @ VDict ?p3 # []))) (Some ''deploy'')
      (Some [(''erase_devices'', VInt 0)]) = Inl (Uncaught KeyError)"
    using conjunct2 [OF conjunct2 [OF conjunct2 [OF t2]]] by blast
  then have c: "get_clean_steps (Some (VList [VDict ?p3])) (Some ''deploy'')
      (Some [(''erase_devices'', VInt 0)]) = Inl (Uncaught KeyError)"
    by simp
  from a b c show ?thesis by simp
qed

text \<open>
  An entry without \<open>priority\<close> for another interface than the one asked for, as
  \<open>AnsibleDeploy.get_clean_steps\<close> asks: the entry is skipped and nothing is raised.
\<close>

theorem get_clean_steps_skipped_entry_counterexample:
  "map_of [(''name'', VStr ''create_configuration''), (''interface'', VStr ''raid'')] ''priority'' = None
   \<and> get_clean_steps
        (Some (VList [VDict [(''name'', VStr ''create_configuration''), (''interface'', VStr ''raid'')]]))
        (Some ''deploy'') (Some [(''erase_devices'', VNone)])
       = Inr []"
  by (simp add: get_clean_steps_def getitem_def dict_get_def Let_def)

end
